theory Spec2Isabelle
  imports Main "HOL-Library.Multiset" "HOL-Library.Word"
begin

unbundle bit_operations_syntax

section \<open>Machine integers\<close>

text \<open>
  The proxy mixes \<^verbatim>\<open>int\<close>, \<^verbatim>\<open>unsigned int\<close>, \<^verbatim>\<open>size_t\<close> and \<^verbatim>\<open>uint64_t\<close>.
  Values are kept as \<^typ>\<open>int\<close> or \<^typ>\<open>nat\<close> and every conversion the C++ performs is
  written out (LP64: \<^verbatim>\<open>int\<close> has 32 bits, \<^verbatim>\<open>size_t\<close> and \<^verbatim>\<open>uint64_t\<close> have 64).
\<close>

definition to_uint32 :: "int \<Rightarrow> int" where
  "to_uint32 i = i mod 2 ^ 32"

definition to_int32 :: "int \<Rightarrow> int" where
  "to_int32 i = (let m = i mod 2 ^ 32 in if m < 2 ^ 31 then m else m - 2 ^ 32)"

definition to_size_t :: "int \<Rightarrow> nat" where
  "to_size_t i = nat (i mod 2 ^ 64)"

definition u64 :: "nat \<Rightarrow> nat" where
  "u64 n = n mod 2 ^ 64"

section \<open>Constants of the headers\<close>

text \<open>
  \<^verbatim>\<open>proxy.cpp\<close> uses enumerators and macros that are declared in headers
  (\<^verbatim>\<open>elliptics/proxy.hpp\<close> and the storage client's interface). Their values are
  parameters of the model.
\<close>

record proxy_consts =
  SUCCESS_COPIES_TYPE_ANY :: int
  SUCCESS_COPIES_TYPE_QUORUM :: int
  SUCCESS_COPIES_TYPE_ALL :: int
  DNET_IO_FLAGS_PREPARE :: "64 word"
  DNET_IO_FLAGS_COMMIT :: "64 word"
  DNET_IO_FLAGS_PLAIN_WRITE :: "64 word"
  DNET_IO_FLAGS_NODATA :: "64 word"
  PROXY_META_OPTIONAL :: int
  PROXY_META_NORMAL :: int
  PROXY_META_MANDATORY :: int
  DNET_ID_SIZE :: nat

text \<open>
  The case labels of one \<^verbatim>\<open>switch\<close> are pairwise different (the program would not
  compile otherwise); the labels are the enumerators converted to \<^verbatim>\<open>size_t\<close>.
\<close>

definition case_labels_distinct :: "proxy_consts \<Rightarrow> bool" where
  "case_labels_distinct c =
     distinct [to_size_t (SUCCESS_COPIES_TYPE_ANY c),
               to_size_t (SUCCESS_COPIES_TYPE_QUORUM c),
               to_size_t (SUCCESS_COPIES_TYPE_ALL c)]"

definition is_copies_type :: "proxy_consts \<Rightarrow> nat \<Rightarrow> bool" where
  "is_copies_type c n =
     (n = to_size_t (SUCCESS_COPIES_TYPE_ANY c) \<or>
      n = to_size_t (SUCCESS_COPIES_TYPE_QUORUM c) \<or>
      n = to_size_t (SUCCESS_COPIES_TYPE_ALL c))"

text \<open>
  A concrete assignment, used to instantiate the theorems: the three success modes are
  negative enumerators, the IO flags are single bits.
\<close>

definition consts0 :: proxy_consts where
  "consts0 =
     \<lparr> SUCCESS_COPIES_TYPE_ANY = - 1,
       SUCCESS_COPIES_TYPE_QUORUM = - 2,
       SUCCESS_COPIES_TYPE_ALL = - 3,
       DNET_IO_FLAGS_PREPARE = 16,
       DNET_IO_FLAGS_COMMIT = 32,
       DNET_IO_FLAGS_PLAIN_WRITE = 512,
       DNET_IO_FLAGS_NODATA = 1024,
       PROXY_META_OPTIONAL = 1,
       PROXY_META_NORMAL = 2,
       PROXY_META_MANDATORY = 3,
       DNET_ID_SIZE = 64 \<rparr>"

section \<open>Quorum policy\<close>

text \<open>
  \<^verbatim>\<open>uploads_need\<close> and \<^verbatim>\<open>upload_is_good\<close> (proxy.cpp, lines 46-70). All arguments are
  \<^verbatim>\<open>size_t\<close>. \<^verbatim>\<open>(replication_count >> 1) + 1\<close> is at most \<open>2 ^ 63\<close> and does not wrap.
\<close>

definition uploads_need :: "proxy_consts \<Rightarrow> nat \<Rightarrow> nat \<Rightarrow> nat" where
  "uploads_need c success_copies_num replication_count =
     (if success_copies_num = to_size_t (SUCCESS_COPIES_TYPE_ANY c) then 1
      else if success_copies_num = to_size_t (SUCCESS_COPIES_TYPE_QUORUM c)
        then drop_bit 1 replication_count + 1
      else if success_copies_num = to_size_t (SUCCESS_COPIES_TYPE_ALL c)
        then replication_count
      else replication_count)"

definition upload_is_good :: "proxy_consts \<Rightarrow> nat \<Rightarrow> nat \<Rightarrow> nat \<Rightarrow> bool" where
  "upload_is_good c success_copies_num replication_count sz =
     (if success_copies_num = to_size_t (SUCCESS_COPIES_TYPE_ANY c) then sz \<ge> 1
      else if success_copies_num = to_size_t (SUCCESS_COPIES_TYPE_QUORUM c)
        then sz \<ge> drop_bit 1 replication_count + 1
      else if success_copies_num = to_size_t (SUCCESS_COPIES_TYPE_ALL c)
        then sz = replication_count
      else sz \<ge> success_copies_num)"

section \<open>Data model\<close>

text \<open>
  Keys, lookup results and data containers are classes of the proxy library; result
  entries, the IO attribute and the session belong to the storage client. Only the
  members that \<^verbatim>\<open>proxy.cpp\<close> reads or writes are kept.
\<close>

record dnet_id =
  raw_id :: "nat list"
  group_id :: int
  id_type :: int

record key_t =
  by_id :: bool
  remote :: string
  key_type :: int
  key_id :: dnet_id
  to_string :: string

record lookup_result_t =
  group_lr :: int
  host :: string
  port :: int
  path :: string

record timespec =
  tv_sec :: int
  tv_nsec :: int

record data_container_t =
  dc_data :: string
  dc_timestamp :: "timespec option"

text \<open>
  One reply of one node: \<open>entry_error\<close> is \<^verbatim>\<open>entry.error()\<close> (0: no error),
  \<open>entry_id\<close> is \<^verbatim>\<open>entry.command()->id\<close>, \<open>entry_num\<close> is
  \<^verbatim>\<open>entry.io_attribute()->num\<close>, \<open>entry_data\<close> is \<^verbatim>\<open>entry.data().to_string()\<close> and
  \<open>entry_file\<close> is \<^verbatim>\<open>entry.file()\<close>.
\<close>

record result_entry =
  entry_error :: int
  entry_id :: dnet_id
  entry_num :: nat
  entry_data :: string
  entry_file :: string

record dnet_io_attr =
  io_parent :: "nat list"
  io_id :: "nat list"
  io_start :: nat
  io_num :: nat
  io_flags :: "64 word"
  io_type :: int
  io_size :: nat

datatype filters = filters_positive | filters_all

record session =
  s_groups :: "int list"
  s_cflags :: "64 word"
  s_ioflags :: "64 word"
  s_filter :: filters

text \<open>A session as its constructor leaves it: no groups, no flags, the positive filter.\<close>

definition new_session :: session where
  "new_session = \<lparr> s_groups = [], s_cflags = 0, s_ioflags = 0, s_filter = filters_positive \<rparr>"

text \<open>
  The exceptions of the program. \<open>session_error\<close> is whatever the storage client or
  another collaborator throws; \<open>undefined_behaviour\<close> marks an operation whose behaviour
  C++ does not define.
\<close>

datatype error =
    runtime_error string
  | not_found_error string
  | length_error
  | session_error int
  | undefined_behaviour

text \<open>
  A call that reaches the storage through the session, with the settings of the session
  at that moment. The arguments are those of the session's method.
\<close>

datatype call =
    Write_prepare session key_t string nat nat
  | Write_commit session key_t string nat nat
  | Write_plain session key_t string nat
  | Write_data session key_t string nat
  | Write_metadata session key_t string "int list" timespec
  | Remove session string
  | Lookup session key_t
  | Read_data_range session dnet_io_attr int
  | Bulk_read session "dnet_io_attr list"
  | Bulk_write session "dnet_io_attr list" "string list"

text \<open>
  Everything outside \<^verbatim>\<open>proxy.cpp\<close>: the number of live states, the random shuffle, the
  reply to a call (which may depend on all earlier calls; \<open>Inl\<close> when \<^verbatim>\<open>get()\<close> throws),
  the constructor of a lookup result, the container framing, the id transformation, the
  orders of the two map types and the weighted group cache.
\<close>

record env =
  state_num :: int
  random_shuffle :: "int list \<Rightarrow> int list"
  reply :: "call list \<Rightarrow> call \<Rightarrow> error + result_entry list"
  new_lookup_result :: "result_entry \<Rightarrow> bool \<Rightarrow> int \<Rightarrow> error + lookup_result_t"
  pack :: "data_container_t \<Rightarrow> string"
  unpack :: "string \<Rightarrow> error + data_container_t"
  transform :: "key_t \<Rightarrow> dnet_id"
  key_less :: "key_t \<Rightarrow> key_t \<Rightarrow> bool"
  dnet_id_less :: "dnet_id \<Rightarrow> dnet_id \<Rightarrow> bool"
  default_key :: key_t
  get_metabalancer_groups_impl :: "nat \<Rightarrow> nat \<Rightarrow> key_t \<Rightarrow> error + int list"

text \<open>The members of \<^verbatim>\<open>elliptics_proxy_t::impl\<close>; \<open>have_metabase\<close> is the compile-time switch.\<close>

record impl =
  m_groups :: "int list"
  m_base_port :: int
  m_directory_bit_num :: int
  m_success_copies_num :: int
  m_die_limit :: int
  m_replication_count :: int
  m_chunk_size :: int
  m_eblob_style_path :: bool
  have_metabase :: bool
  m_metabase_usage :: int

text \<open>\<^verbatim>\<open>data_pointer::slice(offset, size)\<close>: the bytes from \<open>offset\<close>, at most \<open>size\<close>.\<close>

definition slice_data :: "string \<Rightarrow> nat \<Rightarrow> nat \<Rightarrow> string" where
  "slice_data content offset sz = take sz (drop offset content)"

section \<open>Group selector\<close>

text \<open>
  \<^verbatim>\<open>get_groups\<close> (lines 1227-1251). \<^verbatim>\<open>lgroups.begin() + count\<close> is undefined for a
  negative \<^verbatim>\<open>count\<close> (here \<open>cnt\<close>).
\<close>

definition get_groups :: "env \<Rightarrow> impl \<Rightarrow> key_t \<Rightarrow> int list \<Rightarrow> int \<Rightarrow> error + int list" where
  "get_groups e p key groups cnt =
     (let lgroups =
            (if length groups \<noteq> 0 then groups
             else (let l = m_groups p in
                   if length l > 1 then hd l # random_shuffle e (tl l) else l))
      in if cnt \<noteq> 0 \<and> cnt < to_int32 (int (length lgroups)) \<and> cnt < 0
         then Inl undefined_behaviour
         else
           (let lgroups1 =
                  (if cnt \<noteq> 0 \<and> cnt < to_int32 (int (length lgroups))
                   then take (nat cnt) lgroups else lgroups)
            in if length lgroups1 = 0 then Inl (runtime_error ''There is no groups'')
               else Inr lgroups1))"

section \<open>Parsing lookups\<close>

text \<open>\<^verbatim>\<open>parse_lookup\<close> (lines 520-543): one entry, and a vector entry by entry.\<close>

definition parse_lookup :: "env \<Rightarrow> impl \<Rightarrow> result_entry \<Rightarrow> error + lookup_result_t" where
  "parse_lookup e p l = new_lookup_result e l (m_eblob_style_path p) (m_base_port p)"

fun parse_lookups :: "env \<Rightarrow> impl \<Rightarrow> result_entry list \<Rightarrow> error + lookup_result_t list" where
  "parse_lookups e p [] = Inr []"
| "parse_lookups e p (l # ls) =
     (case parse_lookup e p l of
        Inl err \<Rightarrow> Inl err
      | Inr r \<Rightarrow>
          (case parse_lookups e p ls of
             Inl err \<Rightarrow> Inl err
           | Inr rs \<Rightarrow> Inr (r # rs)))"

section \<open>Write helper\<close>

text \<open>\<^verbatim>\<open>write_helper_t\<close> (lines 72-138).\<close>

record write_helper_t =
  success_copies_num :: int
  replication_count :: int
  ret :: "lookup_result_t list"
  desired_groups :: "int list"
  upload_groups :: "int list"

definition new_write_helper :: "int \<Rightarrow> int \<Rightarrow> int list \<Rightarrow> write_helper_t" where
  "new_write_helper scn rc desired =
     \<lparr> success_copies_num = scn, replication_count = rc, ret = [],
       desired_groups = desired, upload_groups = [] \<rparr>"

definition update_lookup :: "lookup_result_t list \<Rightarrow> bool \<Rightarrow> write_helper_t \<Rightarrow> write_helper_t" where
  "update_lookup tmp update_ret h =
     h\<lparr> ret := (if update_ret then tmp else ret h), upload_groups := map group_lr tmp \<rparr>"

definition helper_upload_is_good :: "proxy_consts \<Rightarrow> write_helper_t \<Rightarrow> bool" where
  "helper_upload_is_good c h =
     upload_is_good c (to_size_t (success_copies_num h)) (to_size_t (replication_count h))
       (length (upload_groups h))"

definition has_incomplete_groups :: "write_helper_t \<Rightarrow> bool" where
  "has_incomplete_groups h = (length (desired_groups h) \<noteq> length (upload_groups h))"

text \<open>\<^verbatim>\<open>std::set_difference\<close> on two sorted ranges.\<close>

fun set_difference :: "int list \<Rightarrow> int list \<Rightarrow> int list" where
  "set_difference [] ys = []"
| "set_difference (x # xs) [] = x # xs"
| "set_difference (x # xs) (y # ys) =
     (if x < y then x # set_difference xs (y # ys)
      else if y < x then set_difference (x # xs) ys
      else set_difference xs ys)"

text \<open>
  \<^verbatim>\<open>get_incomplete_groups\<close> sorts both members in place and returns the difference. The
  argument of \<^verbatim>\<open>reserve\<close> wraps around when more groups uploaded than were desired, and
  \<^verbatim>\<open>reserve\<close> then throws.
\<close>

definition get_incomplete_groups :: "write_helper_t \<Rightarrow> error + (int list \<times> write_helper_t)" where
  "get_incomplete_groups h =
     (if length (desired_groups h) < length (upload_groups h) then Inl length_error
      else
        (let h1 = h\<lparr> desired_groups := sort (desired_groups h),
                     upload_groups := sort (upload_groups h) \<rparr>
         in Inr (set_difference (desired_groups h1) (upload_groups h1), h1)))"

section \<open>Write engine\<close>

text \<open>
  The group list of a write (\<^verbatim>\<open>write_impl\<close>, lines 607-625): the selector, the weighted
  cache when the build has it and the usage asks for it, and the truncation to the
  replication count. \<open>repl_count\<close> is the \<^verbatim>\<open>unsigned int replication_count\<close>.
\<close>

definition write_groups ::
  "env \<Rightarrow> proxy_consts \<Rightarrow> impl \<Rightarrow> key_t \<Rightarrow> nat \<Rightarrow> int list \<Rightarrow> int \<Rightarrow> error + int list" where
  "write_groups e c p key sz groups repl_count =
     (case get_groups e p key groups 0 of
        Inl err \<Rightarrow> Inl err
      | Inr lgroups0 \<Rightarrow>
          (case (if have_metabase p \<and> m_metabase_usage p \<ge> PROXY_META_OPTIONAL c
                 then (if int (length groups) \<noteq> repl_count
                          \<or> m_metabase_usage p = PROXY_META_MANDATORY c
                       then (case get_metabalancer_groups_impl e (nat repl_count) sz key of
                               Inl err \<Rightarrow>
                                 (if m_metabase_usage p \<ge> PROXY_META_NORMAL c
                                  then Inl (runtime_error ''Metabase does not respond'')
                                  else Inr lgroups0)
                             | Inr mgroups \<Rightarrow> Inr mgroups)
                       else Inr lgroups0)
                 else Inr lgroups0) of
             Inl err \<Rightarrow> Inl err
           | Inr lgroups1 \<Rightarrow>
               Inr (if repl_count \<noteq> 0 \<and> nat repl_count < length lgroups1
                    then take (nat repl_count) lgroups1 else lgroups1)))"

text \<open>One pass of a loop either goes round again with a new state or leaves with a result.\<close>

datatype ('s, 'r) loop_step = Again 's | Exit 'r

text \<open>
  The body of the \<^verbatim>\<open>do ... while\<close> loop of the chunked path with its loop condition
  (lines 660-674). \<open>offset\<close> is a \<^verbatim>\<open>uint64_t\<close>: the additions and the subtraction wrap
  around. \<^verbatim>\<open>last_iter\<close> is set in the pass that commits, and the loop condition is false
  after that pass, so the flag is the test of the current pass.
\<close>

definition chunk_step ::
  "env \<Rightarrow> proxy_consts \<Rightarrow> impl \<Rightarrow> key_t \<Rightarrow> string \<Rightarrow> call list \<Rightarrow> session \<Rightarrow> nat \<Rightarrow> write_helper_t
     \<Rightarrow> (call list \<times> session \<times> nat \<times> write_helper_t,
         call list \<times> session \<times> (error + result_entry list \<times> write_helper_t)) loop_step"
where
  "chunk_step e c p key content tr s offset helper =
     (let s1 = s\<lparr> s_groups := upload_groups helper \<rparr>;
          offset1 = u64 (offset + to_size_t (m_chunk_size p));
          last_iter = (u64 (offset1 + to_size_t (m_chunk_size p)) \<ge> length content);
          cl = (if last_iter
                then Write_commit s1 key
                       (slice_data content offset1 (u64 (length content + 2 ^ 64 - offset1)))
                       offset1 (length content)
                else Write_plain s1 key
                       (slice_data content offset1 (to_size_t (m_chunk_size p))) offset1)
      in case reply e tr cl of
           Inl err \<Rightarrow> Exit (tr @ [cl], s1, Inl err)
         | Inr lookup \<Rightarrow>
             (case parse_lookups e p lookup of
                Inl err \<Rightarrow> Exit (tr @ [cl], s1, Inl err)
              | Inr tmp \<Rightarrow>
                  (let helper1 = update_lookup tmp last_iter helper in
                   if helper_upload_is_good c helper1
                        \<and> u64 (offset1 + to_size_t (m_chunk_size p)) < length content
                   then Again (tr @ [cl], s1, offset1, helper1)
                   else Exit (tr @ [cl], s1, Inr (lookup, helper1)))))"

text \<open>The loop; one that never ends is \<open>None\<close>.\<close>

partial_function (option) chunk_loop ::
  "env \<Rightarrow> proxy_consts \<Rightarrow> impl \<Rightarrow> key_t \<Rightarrow> string \<Rightarrow> call list \<Rightarrow> session \<Rightarrow> nat \<Rightarrow> write_helper_t
     \<Rightarrow> (call list \<times> session \<times> (error + result_entry list \<times> write_helper_t)) option"
where
  "chunk_loop e c p key content tr s offset helper =
     (case chunk_step e c p key content tr s offset helper of
        Again (tr1, s1, offset1, helper1) \<Rightarrow> chunk_loop e c p key content tr1 s1 offset1 helper1
      | Exit r \<Rightarrow> Some r)"

declare chunk_loop.simps [code]

text \<open>The chunked path (lines 652-675): the prepare call, then the loop.\<close>

definition write_chunked ::
  "env \<Rightarrow> proxy_consts \<Rightarrow> impl \<Rightarrow> key_t \<Rightarrow> string \<Rightarrow> call list \<Rightarrow> session \<Rightarrow> nat \<Rightarrow> write_helper_t
     \<Rightarrow> (call list \<times> session \<times> (error + result_entry list \<times> write_helper_t)) option"
where
  "write_chunked e c p key content tr s offset helper =
     (let cl = Write_prepare s key (slice_data content offset (to_size_t (m_chunk_size p)))
                 offset (length content)
      in case reply e tr cl of
           Inl err \<Rightarrow> Some (tr @ [cl], s, Inl err)
         | Inr lookup \<Rightarrow>
             (case parse_lookups e p lookup of
                Inl err \<Rightarrow> Some (tr @ [cl], s, Inl err)
              | Inr tmp \<Rightarrow>
                  (let helper1 = update_lookup tmp False helper in
                   if helper_upload_is_good c helper1
                   then chunk_loop e c p key content (tr @ [cl]) s offset helper1
                   else Some (tr @ [cl], s, Inr (lookup, helper1)))))"

text \<open>One call whose \<^verbatim>\<open>get()\<close> gives the vector \<^verbatim>\<open>lookup\<close>.\<close>

definition session_get ::
  "env \<Rightarrow> call list \<Rightarrow> session \<Rightarrow> write_helper_t \<Rightarrow> call
     \<Rightarrow> (call list \<times> session \<times> (error + result_entry list \<times> write_helper_t)) option"
where
  "session_get e tr s helper cl =
     (case reply e tr cl of
        Inl err \<Rightarrow> Some (tr @ [cl], s, Inl err)
      | Inr lookup \<Rightarrow> Some (tr @ [cl], s, Inr (lookup, helper)))"

text \<open>The body upload (lines 644-680).\<close>

definition write_body ::
  "env \<Rightarrow> proxy_consts \<Rightarrow> impl \<Rightarrow> key_t \<Rightarrow> string \<Rightarrow> nat \<Rightarrow> nat \<Rightarrow> 64 word \<Rightarrow> bool \<Rightarrow> call list
     \<Rightarrow> session \<Rightarrow> write_helper_t
     \<Rightarrow> (call list \<times> session \<times> (error + result_entry list \<times> write_helper_t)) option"
where
  "write_body e c p key content offset sz ioflags chunked tr s helper =
     (if ioflags AND DNET_IO_FLAGS_PREPARE c \<noteq> 0
        then session_get e tr s helper (Write_prepare s key content offset sz)
      else if ioflags AND DNET_IO_FLAGS_COMMIT c \<noteq> 0
        then session_get e tr s helper (Write_commit s key content offset sz)
      else if ioflags AND DNET_IO_FLAGS_PLAIN_WRITE c \<noteq> 0
        then session_get e tr s helper (Write_plain s key content offset)
      else if chunked
        then write_chunked e c p key content tr s offset helper
      else session_get e tr s helper (Write_data s key content offset))"

text \<open>
  After the body (lines 685-716): the rejection with its remove, the remove from the
  incomplete groups of a chunked upload, and the metadata write.
\<close>

definition write_finish ::
  "env \<Rightarrow> proxy_consts \<Rightarrow> key_t \<Rightarrow> 64 word \<Rightarrow> int list \<Rightarrow> bool \<Rightarrow> call list \<Rightarrow> session
     \<Rightarrow> write_helper_t \<Rightarrow> call list \<times> session \<times> (error + lookup_result_t list)"
where
  "write_finish e c key ioflags lgroups chunked tr s helper =
     (if \<not> helper_upload_is_good c helper
      then (let s1 = s\<lparr> s_groups := lgroups, s_filter := filters_all \<rparr>
            in (tr @ [Remove s1 (remote key)], s1,
                Inl (runtime_error
                  ''Not enough copies was written, or problems with chunked upload'')))
      else
        (case (if chunked \<and> has_incomplete_groups helper
               then (case get_incomplete_groups helper of
                       Inl err \<Rightarrow> Inl err
                     | Inr (incomplete, helper1) \<Rightarrow>
                         (let s1 = s\<lparr> s_groups := incomplete, s_filter := filters_all \<rparr>
                          in Inr (tr @ [Remove s1 (remote key)], s1, helper1)))
               else Inr (tr, s, helper)) of
           Inl err \<Rightarrow> (tr, s, Inl err)
         | Inr (tr1, s1, helper1) \<Rightarrow>
             (let s2 = s1\<lparr> s_cflags := 0 \<rparr>;
                  cl = Write_metadata s2 key (remote key) (upload_groups helper1)
                         \<lparr> tv_sec = 0, tv_nsec = 0 \<rparr>
              in case reply e tr1 cl of
                   Inl err \<Rightarrow> (tr1 @ [cl], s2, Inl err)
                 | Inr _ \<Rightarrow> (tr1 @ [cl], s2\<lparr> s_cflags := ioflags \<rparr>, Inr (ret helper1)))))"

text \<open>The outer \<^verbatim>\<open>try\<close> block (lines 629-716); the handlers log and rethrow.\<close>

definition is_chunked :: "env \<Rightarrow> proxy_consts \<Rightarrow> impl \<Rightarrow> key_t \<Rightarrow> data_container_t \<Rightarrow> 64 word \<Rightarrow> bool" where
  "is_chunked e c p key data ioflags =
     (m_chunk_size p \<noteq> 0 \<and> length (pack e data) > to_size_t (m_chunk_size p) \<and> \<not> by_id key
      \<and> ioflags AND (DNET_IO_FLAGS_PREPARE c OR DNET_IO_FLAGS_COMMIT c
                       OR DNET_IO_FLAGS_PLAIN_WRITE c) = 0)"

text \<open>
  The body upload and the update of the helper that follows a body which was not
  chunked (lines 644-683).
\<close>

definition write_attempt ::
  "env \<Rightarrow> proxy_consts \<Rightarrow> impl \<Rightarrow> key_t \<Rightarrow> string \<Rightarrow> nat \<Rightarrow> nat \<Rightarrow> 64 word \<Rightarrow> bool
     \<Rightarrow> session \<Rightarrow> write_helper_t
     \<Rightarrow> (call list \<times> session \<times> (error + write_helper_t)) option"
where
  "write_attempt e c p key content offset sz ioflags chunked s1 helper0 =
     (case write_body e c p key content offset sz ioflags chunked [] s1 helper0 of
        None \<Rightarrow> None
      | Some (tr, s2, Inl err) \<Rightarrow> Some (tr, s2, Inl err)
      | Some (tr, s2, Inr (lookup, helper1)) \<Rightarrow>
          (if \<not> chunked
           then (case parse_lookups e p lookup of
                   Inl err \<Rightarrow> Some (tr, s2, Inl err)
                 | Inr tmp \<Rightarrow> Some (tr, s2, Inr (update_lookup tmp True helper1)))
           else Some (tr, s2, Inr helper1)))"

definition write_upload ::
  "env \<Rightarrow> proxy_consts \<Rightarrow> impl \<Rightarrow> key_t \<Rightarrow> data_container_t \<Rightarrow> nat \<Rightarrow> nat \<Rightarrow> 64 word \<Rightarrow> int list
     \<Rightarrow> session \<Rightarrow> write_helper_t
     \<Rightarrow> (call list \<times> session \<times> (error + lookup_result_t list)) option"
where
  "write_upload e c p key data offset sz ioflags lgroups s0 helper0 =
     (let s1 = s0\<lparr> s_groups := lgroups \<rparr>;
          content = pack e data;
          chunked = is_chunked e c p key data ioflags
      in case write_attempt e c p key content offset sz ioflags chunked s1 helper0 of
           None \<Rightarrow> None
         | Some (tr, s2, Inl err) \<Rightarrow> Some (tr, s2, Inl err)
         | Some (tr, s2, Inr helper2) \<Rightarrow>
             Some (write_finish e c key ioflags lgroups chunked tr s2 helper2))"

text \<open>\<^verbatim>\<open>write_impl\<close> (lines 586-731).\<close>

definition resolve_replication_count :: "impl \<Rightarrow> int list \<Rightarrow> int" where
  "resolve_replication_count p groups =
     (let repl_count = to_uint32 (int (length groups))
      in if repl_count = 0 then to_uint32 (m_replication_count p) else repl_count)"

definition resolve_success_copies_num :: "impl \<Rightarrow> int \<Rightarrow> int" where
  "resolve_success_copies_num p copies_num =
     (if copies_num = 0 then m_success_copies_num p else copies_num)"

definition write_impl ::
  "env \<Rightarrow> proxy_consts \<Rightarrow> impl \<Rightarrow> key_t \<Rightarrow> data_container_t \<Rightarrow> nat \<Rightarrow> nat \<Rightarrow> 64 word \<Rightarrow> 64 word
     \<Rightarrow> int list \<Rightarrow> int \<Rightarrow> (call list \<times> session \<times> (error + lookup_result_t list)) option"
where
  "write_impl e c p key data offset sz cflags ioflags groups copies_num =
     (let s0 = new_session\<lparr> s_cflags := cflags, s_ioflags := ioflags \<rparr>
      in if state_num e < m_die_limit p
         then Some ([], s0, Inl (runtime_error ''Too low number of existing states''))
         else
           (let repl_count = resolve_replication_count p groups;
                copies_num1 = resolve_success_copies_num p copies_num
            in case write_groups e c p key sz groups repl_count of
                 Inl err \<Rightarrow> Some ([], s0, Inl err)
               | Inr lgroups \<Rightarrow>
                   write_upload e c p key data offset sz ioflags lgroups s0
                     (new_write_helper copies_num1 (to_int32 repl_count) lgroups)))"

section \<open>Lookup\<close>

text \<open>
  The \<^verbatim>\<open>for\<close> loop over one result (\<^verbatim>\<open>lookup_impl\<close>, lines 557-568). \<^verbatim>\<open>std::remove\<close> keeps
  the candidates that differ from the group id in the front of the vector; what lies
  behind the returned iterator is erased after the loop, so only the front is kept here.
  A lookup result whose construction throws is swallowed and its entry goes on to the
  remove.
\<close>

definition try_parse_lookup :: "env \<Rightarrow> impl \<Rightarrow> result_entry \<Rightarrow> lookup_result_t option" where
  "try_parse_lookup e p entry =
     (if entry_error entry = 0
      then (case parse_lookup e p entry of Inl err \<Rightarrow> None | Inr r \<Rightarrow> Some r)
      else None)"

fun lookup_entries :: "env \<Rightarrow> impl \<Rightarrow> result_entry list \<Rightarrow> int list \<Rightarrow> lookup_result_t + int list" where
  "lookup_entries e p [] lgroups = Inr lgroups"
| "lookup_entries e p (entry # result) lgroups =
     (case try_parse_lookup e p entry of
        Some r \<Rightarrow> Inl r
      | None \<Rightarrow>
          lookup_entries e p result
            (filter (\<lambda>g. g \<noteq> group_id (entry_id entry)) lgroups))"

text \<open>
  One pass of the \<^verbatim>\<open>while\<close> loop (lines 554-570) with its condition, which is tested
  first.
\<close>

definition lookup_step ::
  "env \<Rightarrow> impl \<Rightarrow> key_t \<Rightarrow> call list \<Rightarrow> session \<Rightarrow> int list
     \<Rightarrow> (call list \<times> session \<times> int list,
         call list \<times> session \<times> (error + lookup_result_t)) loop_step"
where
  "lookup_step e p key tr s lgroups =
     (if lgroups = [] then Exit (tr, s, Inl (not_found_error (to_string key)))
      else
        (let s1 = s\<lparr> s_groups := lgroups \<rparr>;
             cl = Lookup s1 key
         in case reply e tr cl of
              Inl err \<Rightarrow> Exit (tr @ [cl], s1, Inl err)
            | Inr result \<Rightarrow>
                (case lookup_entries e p result lgroups of
                   Inl r \<Rightarrow> Exit (tr @ [cl], s1, Inr r)
                 | Inr lgroups1 \<Rightarrow> Again (tr @ [cl], s1, lgroups1))))"

text \<open>The loop; one that never ends is \<open>None\<close>.\<close>

partial_function (option) lookup_loop ::
  "env \<Rightarrow> impl \<Rightarrow> key_t \<Rightarrow> call list \<Rightarrow> session \<Rightarrow> int list
     \<Rightarrow> (call list \<times> session \<times> (error + lookup_result_t)) option"
where
  "lookup_loop e p key tr s lgroups =
     (case lookup_step e p key tr s lgroups of
        Again (tr1, s1, lgroups1) \<Rightarrow> lookup_loop e p key tr1 s1 lgroups1
      | Exit r \<Rightarrow> Some r)"

declare lookup_loop.simps [code]

text \<open>\<^verbatim>\<open>lookup_impl\<close> (lines 545-577).\<close>

definition lookup_impl ::
  "env \<Rightarrow> impl \<Rightarrow> key_t \<Rightarrow> int list \<Rightarrow> (call list \<times> session \<times> (error + lookup_result_t)) option" where
  "lookup_impl e p key groups =
     (let s0 = new_session\<lparr> s_filter := filters_all \<rparr>
      in case get_groups e p key groups 0 of
           Inl err \<Rightarrow> Some ([], s0, Inl err)
         | Inr lgroups \<Rightarrow> lookup_loop e p key [] s0 lgroups)"

section \<open>Range read\<close>

text \<open>Decimal digits, as \<^verbatim>\<open>operator<<\<close> writes an unsigned number.\<close>

definition digit_char :: "nat \<Rightarrow> char" where
  "digit_char d = ''0123456789'' ! d"

fun string_of_nat :: "nat \<Rightarrow> string" where
  "string_of_nat n =
     (if 10 \<le> n then string_of_nat (n div 10) @ [digit_char (n mod 10)]
      else [digit_char n])"

declare string_of_nat.simps [simp del]

text \<open>
  The inner loop over the entries of one group (\<^verbatim>\<open>range_get_impl\<close>, lines 771-777);
  \<open>num\<close> is a \<^verbatim>\<open>uint64_t\<close>.
\<close>

fun range_entries ::
  "proxy_consts \<Rightarrow> dnet_io_attr \<Rightarrow> result_entry list \<Rightarrow> nat \<Rightarrow> string list \<Rightarrow> nat \<times> string list" where
  "range_entries c io [] num rets = (num, rets)"
| "range_entries c io (entry # range_result) num rets =
     (if io_flags io AND DNET_IO_FLAGS_NODATA c = 0
      then range_entries c io range_result (u64 (num + entry_num entry)) rets
      else range_entries c io range_result num (rets @ [entry_data entry]))"

text \<open>The loop over the groups (lines 765-789); a throwing read goes on to the next group.\<close>

fun range_groups ::
  "env \<Rightarrow> proxy_consts \<Rightarrow> session \<Rightarrow> dnet_io_attr \<Rightarrow> int list \<Rightarrow> call list \<Rightarrow> string list
     \<Rightarrow> call list \<times> string list" where
  "range_groups e c s io [] tr rets = (tr, rets)"
| "range_groups e c s io (g # gs) tr rets =
     (let cl = Read_data_range s io g
      in case reply e tr cl of
           Inl err \<Rightarrow> range_groups e c s io gs (tr @ [cl]) rets
         | Inr range_result \<Rightarrow>
             (let (num, rets1) = range_entries c io range_result 0 rets;
                  rets2 = (if io_flags io AND DNET_IO_FLAGS_NODATA c \<noteq> 0
                           then rets1 @ [string_of_nat num] else rets1)
              in if length rets2 \<noteq> 0 then (tr @ [cl], rets2)
                 else range_groups e c s io gs (tr @ [cl]) rets2))"

text \<open>The IO attribute of a range read (lines 746-762).\<close>

definition range_io :: "proxy_consts \<Rightarrow> key_t \<Rightarrow> key_t \<Rightarrow> 64 word \<Rightarrow> nat \<Rightarrow> nat \<Rightarrow> dnet_io_attr" where
  "range_io c from_key to_key ioflags limit_start limit_num =
     \<lparr> io_parent = (if by_id to_key
                      then take (DNET_ID_SIZE c) (raw_id (key_id from_key))
                      else replicate (DNET_ID_SIZE c) 255),
       io_id = (if by_id from_key
                then take (DNET_ID_SIZE c) (raw_id (key_id from_key))
                else replicate (DNET_ID_SIZE c) 0),
       io_start = limit_start, io_num = limit_num, io_flags = ioflags,
       io_type = key_type from_key, io_size = 0 \<rparr>"

text \<open>\<^verbatim>\<open>range_get_impl\<close> (lines 733-813).\<close>

definition range_get_impl ::
  "env \<Rightarrow> proxy_consts \<Rightarrow> impl \<Rightarrow> key_t \<Rightarrow> key_t \<Rightarrow> 64 word \<Rightarrow> 64 word \<Rightarrow> nat \<Rightarrow> nat \<Rightarrow> int list
     \<Rightarrow> key_t \<Rightarrow> call list \<times> session \<times> (error + string list)" where
  "range_get_impl e c p from_key to_key cflags ioflags limit_start limit_num groups key =
     (case get_groups e p key groups 0 of
        Inl err \<Rightarrow> ([], new_session, Inl err)
      | Inr lgroups \<Rightarrow>
          (let s1 = new_session\<lparr> s_cflags := cflags, s_ioflags := ioflags \<rparr>;
               io = range_io c from_key to_key ioflags limit_start limit_num;
               (tr, rets) = range_groups e c s1 io lgroups [] []
           in if length rets = 0
              then (tr, s1,
                    Inl (runtime_error (''READ_RANGE failed for key '' @ to_string key
                           @ '' in '' @ string_of_nat (length groups) @ '' groups'')))
              else (tr, s1, Inr rets)))"

section \<open>Bulk engine\<close>

text \<open>
  \<^verbatim>\<open>std::map\<close> as a list of pairs in the order of the keys: \<^verbatim>\<open>insert\<close> keeps the value
  of a key that is present, \<^verbatim>\<open>operator[]\<close> finds or creates.
\<close>

fun map_find :: "('k \<Rightarrow> 'k \<Rightarrow> bool) \<Rightarrow> 'k \<Rightarrow> ('k \<times> 'v) list \<Rightarrow> 'v option" where
  "map_find lt k [] = None"
| "map_find lt k ((k1, v1) # m) =
     (if lt k k1 \<or> lt k1 k then map_find lt k m else Some v1)"

fun map_insert :: "('k \<Rightarrow> 'k \<Rightarrow> bool) \<Rightarrow> 'k \<Rightarrow> 'v \<Rightarrow> ('k \<times> 'v) list \<Rightarrow> ('k \<times> 'v) list" where
  "map_insert lt k v [] = [(k, v)]"
| "map_insert lt k v ((k1, v1) # m) =
     (if lt k k1 then (k, v) # (k1, v1) # m
      else if lt k1 k then (k1, v1) # map_insert lt k v m
      else (k1, v1) # m)"

fun map_push_back :: "('k \<Rightarrow> 'k \<Rightarrow> bool) \<Rightarrow> 'k \<Rightarrow> 'v \<Rightarrow> ('k \<times> 'v list) list \<Rightarrow> ('k \<times> 'v list) list" where
  "map_push_back lt k v [] = [(k, [v])]"
| "map_push_back lt k v ((k1, vs) # m) =
     (if lt k k1 then (k, [v]) # (k1, vs) # m
      else if lt k1 k then (k1, vs) # map_push_back lt k v m
      else (k1, vs @ [v]) # m)"

definition map_at :: "('k \<Rightarrow> 'k \<Rightarrow> bool) \<Rightarrow> 'v \<Rightarrow> ('k \<times> 'v) list \<Rightarrow> 'k \<Rightarrow> 'v" where
  "map_at lt dflt m k = (case map_find lt k m of None \<Rightarrow> dflt | Some v \<Rightarrow> v)"

text \<open>The raw id of a key: its own, or the transformation of its name.\<close>

definition transformed_id :: "env \<Rightarrow> key_t \<Rightarrow> dnet_id" where
  "transformed_id e k = (if \<not> by_id k then transform e k else key_id k)"

definition zero_io :: "proxy_consts \<Rightarrow> dnet_io_attr" where
  "zero_io c =
     \<lparr> io_parent = replicate (DNET_ID_SIZE c) 0, io_id = replicate (DNET_ID_SIZE c) 0,
       io_start = 0, io_num = 0, io_flags = 0, io_type = 0, io_size = 0 \<rparr>"

text \<open>\<^verbatim>\<open>bulk_read_impl\<close> (lines 820-878): the loop over the keys, the loop over the result.\<close>

fun bulk_read_ios ::
  "env \<Rightarrow> proxy_consts \<Rightarrow> key_t list \<Rightarrow> dnet_io_attr list \<Rightarrow> (dnet_id \<times> key_t) list
     \<Rightarrow> dnet_io_attr list \<times> (dnet_id \<times> key_t) list" where
  "bulk_read_ios e c [] ios keys_transformed = (ios, keys_transformed)"
| "bulk_read_ios e c (k # ks) ios keys_transformed =
     (let tmp_id = transformed_id e k;
          io = (zero_io c)\<lparr> io_id := take (DNET_ID_SIZE c) (raw_id tmp_id) \<rparr>
      in bulk_read_ios e c ks (ios @ [io])
           (map_insert (dnet_id_less e) tmp_id k keys_transformed))"

fun bulk_read_collect ::
  "env \<Rightarrow> (dnet_id \<times> key_t) list \<Rightarrow> result_entry list \<Rightarrow> (key_t \<times> data_container_t) list
     \<Rightarrow> error + (key_t \<times> data_container_t) list" where
  "bulk_read_collect e keys_transformed [] rets = Inr rets"
| "bulk_read_collect e keys_transformed (entry # result) rets =
     (case unpack e (entry_file entry) of
        Inl err \<Rightarrow> Inl err
      | Inr dc \<Rightarrow>
          bulk_read_collect e keys_transformed result
            (map_insert (key_less e)
               (map_at (dnet_id_less e) (default_key e) keys_transformed (entry_id entry))
               dc rets))"

definition bulk_read_impl ::
  "env \<Rightarrow> proxy_consts \<Rightarrow> impl \<Rightarrow> key_t list \<Rightarrow> 64 word \<Rightarrow> int list
     \<Rightarrow> call list \<times> (error + (key_t \<times> data_container_t) list)" where
  "bulk_read_impl e c p keys cflags groups =
     (if length keys = 0 then ([], Inr [])
      else
        (case get_groups e p (hd keys) groups 0 of
           Inl err \<Rightarrow> ([], Inl err)
         | Inr lgroups \<Rightarrow>
             (let s1 = new_session\<lparr> s_groups := lgroups \<rparr>;
                  (ios, keys_transformed) = bulk_read_ios e c keys [] [];
                  cl = Bulk_read s1 ios
              in case reply e [] cl of
                   Inl err \<Rightarrow> ([cl], Inl err)
                 | Inr result \<Rightarrow> ([cl], bulk_read_collect e keys_transformed result []))))"

text \<open>\<^verbatim>\<open>bulk_write_impl\<close> (lines 909-1000).\<close>

fun bulk_write_ios ::
  "env \<Rightarrow> proxy_consts \<Rightarrow> key_t list \<Rightarrow> data_container_t list \<Rightarrow> dnet_io_attr list \<Rightarrow> string list
     \<Rightarrow> (dnet_id \<times> key_t) list
     \<Rightarrow> dnet_io_attr list \<times> string list \<times> (dnet_id \<times> key_t) list" where
  "bulk_write_ios e c (k # ks) (d # ds) ios data_pointers keys_transformed =
     (let content = pack e d;
          tmp_id = transformed_id e k;
          io = (zero_io c)\<lparr> io_id := take (DNET_ID_SIZE c) (raw_id tmp_id),
                            io_size := length content \<rparr>
      in bulk_write_ios e c ks ds (ios @ [io]) (data_pointers @ [content])
           (map_insert (dnet_id_less e) tmp_id k keys_transformed))"
| "bulk_write_ios e c ks ds ios data_pointers keys_transformed =
     (ios, data_pointers, keys_transformed)"

fun bulk_write_collect ::
  "env \<Rightarrow> impl \<Rightarrow> (dnet_id \<times> key_t) list \<Rightarrow> result_entry list
     \<Rightarrow> (key_t \<times> lookup_result_t list) list \<Rightarrow> (key_t \<times> int list) list
     \<Rightarrow> error + (key_t \<times> lookup_result_t list) list \<times> (key_t \<times> int list) list" where
  "bulk_write_collect e p keys_transformed [] res res_groups = Inr (res, res_groups)"
| "bulk_write_collect e p keys_transformed (lr # result) res res_groups =
     (case parse_lookup e p lr of
        Inl err \<Rightarrow> Inl err
      | Inr r \<Rightarrow>
          (let key = map_at (dnet_id_less e) (default_key e) keys_transformed (entry_id lr)
           in bulk_write_collect e p keys_transformed result
                (map_push_back (key_less e) key r res)
                (map_push_back (key_less e) key (group_lr r) res_groups)))"

definition bulk_write_removes :: "session \<Rightarrow> (key_t \<times> int list) list \<Rightarrow> call list" where
  "bulk_write_removes s res_groups =
     map (\<lambda>(key, gs). Remove (s\<lparr> s_groups := gs \<rparr>) (remote key)) res_groups"

definition bulk_write_impl ::
  "env \<Rightarrow> proxy_consts \<Rightarrow> impl \<Rightarrow> key_t list \<Rightarrow> data_container_t list \<Rightarrow> 64 word \<Rightarrow> int list \<Rightarrow> int
     \<Rightarrow> call list \<times> (error + (key_t \<times> lookup_result_t list) list)" where
  "bulk_write_impl e c p keys data cflags groups copies_num =
     (if length keys = 0 then ([], Inr [])
      else
        (let repl_count = resolve_replication_count p groups
         in case get_groups e p (hd keys) groups 0 of
              Inl err \<Rightarrow> ([], Inl err)
            | Inr lgroups \<Rightarrow>
                if length keys \<noteq> length data
                then ([], Inl (runtime_error ''counts of keys and data are not equal''))
                else
                  (let s1 = new_session\<lparr> s_groups := lgroups \<rparr>;
                       (ios, data_pointers, keys_transformed) =
                          bulk_write_ios e c keys data [] [] [];
                       cl = Bulk_write s1 ios data_pointers
                   in case reply e [] cl of
                        Inl err \<Rightarrow> ([cl], Inl err)
                      | Inr result \<Rightarrow>
                          (case bulk_write_collect e p keys_transformed result [] [] of
                             Inl err \<Rightarrow> ([cl], Inl err)
                           | Inr (res, res_groups) \<Rightarrow>
                               (let replication_need =
                                      to_uint32 (int (uploads_need c
                                        (to_size_t (if copies_num \<noteq> 0 then copies_num
                                                    else m_success_copies_num p))
                                        (nat repl_count)))
                                in if list_ex (\<lambda>(key, gs). int (length gs) < replication_need)
                                        res_groups
                                   then (cl # bulk_write_removes s1 res_groups,
                                         Inl (runtime_error ''Not enough copies was written''))
                                   else ([cl], Inr res))))))"

section \<open>Reading a trace\<close>

text \<open>The session settings a call was issued with, and the kinds of calls.\<close>

fun call_session :: "call \<Rightarrow> session" where
  "call_session (Write_prepare s k d off rsv) = s"
| "call_session (Write_commit s k d off rsv) = s"
| "call_session (Write_plain s k d off) = s"
| "call_session (Write_data s k d off) = s"
| "call_session (Write_metadata s k n gs ts) = s"
| "call_session (Remove s n) = s"
| "call_session (Lookup s k) = s"
| "call_session (Read_data_range s io g) = s"
| "call_session (Bulk_read s ios) = s"
| "call_session (Bulk_write s ios ds) = s"

fun is_remove :: "call \<Rightarrow> bool" where
  "is_remove (Remove s n) = True"
| "is_remove cl = False"

fun is_body_call :: "call \<Rightarrow> bool" where
  "is_body_call (Write_prepare s k d off rsv) = True"
| "is_body_call (Write_commit s k d off rsv) = True"
| "is_body_call (Write_plain s k d off) = True"
| "is_body_call (Write_data s k d off) = True"
| "is_body_call cl = False"

text \<open>The parts of an outcome: the calls, the final session settings, the result.\<close>

definition calls_of :: "(call list \<times> session \<times> 'a) option \<Rightarrow> call list" where
  "calls_of r = (case r of None \<Rightarrow> [] | Some (tr, s, x) \<Rightarrow> tr)"

definition session_of :: "(call list \<times> session \<times> 'a) option \<Rightarrow> session option" where
  "session_of r = (case r of None \<Rightarrow> None | Some (tr, s, x) \<Rightarrow> Some s)"

definition result_of :: "(call list \<times> session \<times> 'a) option \<Rightarrow> 'a option" where
  "result_of r = (case r of None \<Rightarrow> None | Some (tr, s, x) \<Rightarrow> Some x)"

text \<open>The removes of a trace: the groups of the session and the name removed.\<close>

fun removes :: "call list \<Rightarrow> (int list \<times> string) list" where
  "removes [] = []"
| "removes (Remove s n # tr) = (s_groups s, n) # removes tr"
| "removes (cl # tr) = removes tr"

text \<open>
  The body calls of a trace, in the order they were issued: the kind of the call, the
  offset, the bytes it carries and, for a prepare and a commit, the size they announce.
\<close>

datatype chunk = Prepare nat string nat | Plain nat string | Commit nat string nat | Whole nat string

fun body_calls :: "call list \<Rightarrow> chunk list" where
  "body_calls [] = []"
| "body_calls (Write_prepare s k d off rsv # tr) = Prepare off d rsv # body_calls tr"
| "body_calls (Write_commit s k d off rsv # tr) = Commit off d rsv # body_calls tr"
| "body_calls (Write_plain s k d off # tr) = Plain off d # body_calls tr"
| "body_calls (Write_data s k d off # tr) = Whole off d # body_calls tr"
| "body_calls (cl # tr) = body_calls tr"

section \<open>Concrete collaborators\<close>

text \<open>
  A storage in which the groups of \<open>failing\<close> answer every write and lookup with an error
  and every other group of the session answers with success; under the positive filter
  a result carries the successful replies only. A range read answers with \<open>entries\<close>. These
  instances evaluate the model on concrete inputs.
\<close>

definition ok_entry :: "int \<Rightarrow> result_entry" where
  "ok_entry g =
     \<lparr> entry_error = 0, entry_id = \<lparr> raw_id = [], group_id = g, id_type = 0 \<rparr>,
       entry_num = 0, entry_data = [], entry_file = [] \<rparr>"

definition error_entry :: "int \<Rightarrow> result_entry" where
  "error_entry g =
     \<lparr> entry_error = - 2, entry_id = \<lparr> raw_id = [], group_id = g, id_type = 0 \<rparr>,
       entry_num = 0, entry_data = [], entry_file = [] \<rparr>"

definition data_entry :: "string \<Rightarrow> nat \<Rightarrow> result_entry" where
  "data_entry body n =
     \<lparr> entry_error = 0, entry_id = \<lparr> raw_id = [], group_id = 0, id_type = 0 \<rparr>,
       entry_num = n, entry_data = body, entry_file = body \<rparr>"

definition plain_lookup_result :: "result_entry \<Rightarrow> lookup_result_t" where
  "plain_lookup_result l =
     \<lparr> group_lr = group_id (entry_id l), host = [], port = 0, path = [] \<rparr>"

definition storage :: "int list \<Rightarrow> result_entry list \<Rightarrow> env" where
  "storage failing entries =
     \<lparr> state_num = 1,
       random_shuffle = rev,
       reply = (\<lambda>tr cl.
          case cl of
            Read_data_range s io g \<Rightarrow> Inr entries
          | _ \<Rightarrow> Inr (map (\<lambda>g. if g \<in> set failing then error_entry g else ok_entry g)
                      (filter (\<lambda>g. s_filter (call_session cl) = filters_all
                                     \<or> g \<notin> set failing)
                         (s_groups (call_session cl))))),
       new_lookup_result = (\<lambda>l eblob_style_path base_port. Inr (plain_lookup_result l)),
       pack = dc_data,
       unpack = (\<lambda>bytes. Inr \<lparr> dc_data = bytes, dc_timestamp = None \<rparr>),
       transform = key_id,
       key_less = (\<lambda>a b. key_type a < key_type b),
       dnet_id_less = (\<lambda>a b. id_type a < id_type b),
       default_key = \<lparr> by_id = False, remote = [], key_type = 0,
                       key_id = \<lparr> raw_id = [], group_id = 0, id_type = 0 \<rparr>, to_string = [] \<rparr>,
       get_metabalancer_groups_impl = (\<lambda>cnt sz key. Inl (session_error 0)) \<rparr>"

text \<open>The same storage, with groups whose lookup result cannot be constructed.\<close>

definition storage_unparsable :: "int list \<Rightarrow> int list \<Rightarrow> env" where
  "storage_unparsable failing unparsable =
     (storage failing [])\<lparr> new_lookup_result :=
        (\<lambda>l eblob_style_path base_port.
           if group_id (entry_id l) \<in> set unparsable then Inl (session_error 22)
           else Inr (plain_lookup_result l)) \<rparr>"

definition name_key :: "string \<Rightarrow> key_t" where
  "name_key n =
     \<lparr> by_id = False, remote = n, key_type = 0,
       key_id = \<lparr> raw_id = [], group_id = 0, id_type = 0 \<rparr>, to_string = n \<rparr>"

definition proxy :: "int list \<Rightarrow> int \<Rightarrow> impl" where
  "proxy default_groups chunk_size =
     \<lparr> m_groups = default_groups, m_base_port = 1024, m_directory_bit_num = 0,
       m_success_copies_num = - 2, m_die_limit = 1,
       m_replication_count = int (length default_groups), m_chunk_size = chunk_size,
       m_eblob_style_path = False, have_metabase = False, m_metabase_usage = 0 \<rparr>"

definition payload :: "string \<Rightarrow> data_container_t" where
  "payload bytes = \<lparr> dc_data = bytes, dc_timestamp = None \<rparr>"

text \<open>
  A storage that answers a lookup with one entry only, that of the first group the
  session is set to, so that a lookup over several groups takes several rounds.
\<close>

definition storage_in_turn :: "int list \<Rightarrow> int list \<Rightarrow> env" where
  "storage_in_turn failing unparsable =
     (storage_unparsable failing unparsable)\<lparr> reply :=
        (\<lambda>tr cl. case cl of
           Lookup s key \<Rightarrow>
             Inr (map (\<lambda>g. if g \<in> set failing then error_entry g else ok_entry g)
                    (take 1 (s_groups s)))
         | _ \<Rightarrow> reply (storage_unparsable failing unparsable) tr cl) \<rparr>"



section \<open>Statements about a write\<close>

text \<open>
  The acceptance predicate of a write, for the success mode and the replication count the
  call resolves (the argument, or the configured value when the argument is 0, with the
  conversions the helper applies).
\<close>

definition upload_accepted :: "proxy_consts \<Rightarrow> impl \<Rightarrow> int list \<Rightarrow> int \<Rightarrow> nat \<Rightarrow> bool" where
  "upload_accepted c p groups copies_num n =
     upload_is_good c (to_size_t (resolve_success_copies_num p copies_num))
       (to_size_t (to_int32 (resolve_replication_count p groups))) n"

text \<open>
  The body upload of a write from the start, given the group list the call selected: the
  replies it gathered are the helper it gives.
\<close>

definition write_replies ::
  "env \<Rightarrow> proxy_consts \<Rightarrow> impl \<Rightarrow> key_t \<Rightarrow> data_container_t \<Rightarrow> nat \<Rightarrow> nat \<Rightarrow> 64 word \<Rightarrow> 64 word
     \<Rightarrow> int list \<Rightarrow> int \<Rightarrow> int list \<Rightarrow> (call list \<times> session \<times> (error + write_helper_t)) option" where
  "write_replies e c p key data offset sz cflags ioflags groups copies_num lgroups =
     write_attempt e c p key (pack e data) offset sz ioflags (is_chunked e c p key data ioflags)
       (new_session\<lparr> s_cflags := cflags, s_ioflags := ioflags, s_groups := lgroups \<rparr>)
       (new_write_helper (resolve_success_copies_num p copies_num)
          (to_int32 (resolve_replication_count p groups)) lgroups)"



text \<open>
  The chunks of a payload of \<open>S\<close> bytes cut at every \<open>C\<close> bytes: their number
  \<open>\<lceil>S/C\<rceil>\<close>, and the calls that carry them, a prepare with the first \<open>C\<close> bytes that
  announces \<open>S\<close>, a plain write for every chunk between the first and the last, and a
  commit with the bytes that remain.
\<close>

definition chunk_count :: "nat \<Rightarrow> nat \<Rightarrow> nat" where
  "chunk_count S C = (S + C - 1) div C"

definition chunk_plan :: "string \<Rightarrow> nat \<Rightarrow> chunk list" where
  "chunk_plan content C =
     (let S = length content; n = chunk_count S C
      in Prepare 0 (take C content) S
         # map (\<lambda>i. Plain (i * C) (take C (drop (i * C) content))) [1..<n - 1]
         @ [Commit ((n - 1) * C) (drop ((n - 1) * C) content) S])"

text \<open>
  A session in which every body call succeeds in all the groups it is set to: the call
  does not throw, its reply can be parsed, and the parsed lookups name exactly the groups
  of the session.
\<close>

definition all_groups_succeed :: "env \<Rightarrow> impl \<Rightarrow> bool" where
  "all_groups_succeed e p =
     (\<forall>tr cl. is_body_call cl \<longrightarrow>
        (\<exists>es ls. reply e tr cl = Inr es \<and> parse_lookups e p es = Inr ls
           \<and> mset (map group_lr ls) = mset (s_groups (call_session cl))))"

text \<open>The helper after a chunk that all the target groups took.\<close>

definition helper_sound :: "int \<Rightarrow> int \<Rightarrow> int list \<Rightarrow> write_helper_t \<Rightarrow> bool" where
  "helper_sound scn rc lgroups h =
     (success_copies_num h = scn \<and> replication_count h = rc \<and> desired_groups h = lgroups
      \<and> mset (upload_groups h) = mset lgroups)"

section \<open>Statements about a lookup\<close>

text \<open>The first entry of a result that carries no error.\<close>

definition first_without_error :: "result_entry list \<Rightarrow> result_entry option" where
  "first_without_error result = find (\<lambda>entry. entry_error entry = 0) result"

text \<open>
  An entry that a lookup can return: it carries no error and its lookup result can be
  constructed. The groups named by a result. One round in these words: the first entry
  that can be returned, or else the candidates without the groups the result names.
\<close>

definition usable :: "env \<Rightarrow> impl \<Rightarrow> result_entry \<Rightarrow> bool" where
  "usable e p entry = (entry_error entry = 0 \<and> isl (parse_lookup e p entry) = False)"

definition entry_groups :: "result_entry list \<Rightarrow> int list" where
  "entry_groups result = map (\<lambda>entry. group_id (entry_id entry)) result"

definition lookup_round :: "env \<Rightarrow> impl \<Rightarrow> result_entry list \<Rightarrow> int list \<Rightarrow> lookup_result_t + int list" where
  "lookup_round e p result lgroups =
     (case find (usable e p) result of
        Some entry \<Rightarrow> Inl (projr (parse_lookup e p entry))
      | None \<Rightarrow> Inr (filter (\<lambda>g. g \<notin> set (entry_groups result)) lgroups))"

text \<open>
  A session that names a candidate in every result: under the filter \<open>all\<close>, a lookup
  that does not throw answers with at least one entry of a group the session is set to.
\<close>

definition lookup_answers :: "env \<Rightarrow> key_t \<Rightarrow> bool" where
  "lookup_answers e key =
     (\<forall>tr s. s_filter s = filters_all \<longrightarrow> s_groups s \<noteq> [] \<longrightarrow>
        (case reply e tr (Lookup s key) of
           Inl err \<Rightarrow> True
         | Inr result \<Rightarrow> \<exists>g \<in> set (entry_groups result). g \<in> set (s_groups s)))"

text \<open>
  A lookup in the words of the claim, as amended: the rounds that start from a trace, a
  session and a list of candidates, and the outcome they end with. With no candidate
  left the lookup fails with the not-found error of the key. Otherwise the session is
  set to the candidates and asked; an exception of the session ends the lookup; a result
  with an entry to return ends it with that entry; and a result without one leaves the
  candidates that the result does not name for the next round.
\<close>

inductive lookup_rounds ::
  "env \<Rightarrow> impl \<Rightarrow> key_t \<Rightarrow> call list \<Rightarrow> session \<Rightarrow> int list
     \<Rightarrow> call list \<times> session \<times> (error + lookup_result_t) \<Rightarrow> bool"
  for e p key
where
  exhausted:
    "lookup_rounds e p key tr s [] (tr, s, Inl (not_found_error (to_string key)))"
| thrown:
    "lgroups \<noteq> [] \<Longrightarrow> reply e tr (Lookup (s\<lparr> s_groups := lgroups \<rparr>) key) = Inl err \<Longrightarrow>
     lookup_rounds e p key tr s lgroups
       (tr @ [Lookup (s\<lparr> s_groups := lgroups \<rparr>) key], s\<lparr> s_groups := lgroups \<rparr>, Inl err)"
| found:
    "lgroups \<noteq> [] \<Longrightarrow> reply e tr (Lookup (s\<lparr> s_groups := lgroups \<rparr>) key) = Inr result \<Longrightarrow>
     lookup_round e p result lgroups = Inl r \<Longrightarrow>
     lookup_rounds e p key tr s lgroups
       (tr @ [Lookup (s\<lparr> s_groups := lgroups \<rparr>) key], s\<lparr> s_groups := lgroups \<rparr>, Inr r)"
| eliminated:
    "lgroups \<noteq> [] \<Longrightarrow> reply e tr (Lookup (s\<lparr> s_groups := lgroups \<rparr>) key) = Inr result \<Longrightarrow>
     lookup_round e p result lgroups = Inr lgroups1 \<Longrightarrow>
     lookup_rounds e p key (tr @ [Lookup (s\<lparr> s_groups := lgroups \<rparr>) key])
       (s\<lparr> s_groups := lgroups \<rparr>) lgroups1 out \<Longrightarrow>
     lookup_rounds e p key tr s lgroups out"

code_pred (modes: i \<Rightarrow> i \<Rightarrow> i \<Rightarrow> i \<Rightarrow> i \<Rightarrow> i \<Rightarrow> o \<Rightarrow> bool) lookup_rounds .

section \<open>Properties of the quorum policy\<close>

lemma consts0_labels: "case_labels_distinct consts0"
  by (simp add: case_labels_distinct_def consts0_def to_size_t_def)

lemma uploads_need_named_modes:
  assumes "case_labels_distinct c"
  shows "uploads_need c (to_size_t (SUCCESS_COPIES_TYPE_ANY c)) R = 1"
    and "uploads_need c (to_size_t (SUCCESS_COPIES_TYPE_QUORUM c)) R = R div 2 + 1"
    and "uploads_need c (to_size_t (SUCCESS_COPIES_TYPE_ALL c)) R = R"
  using assms
  by (auto simp: uploads_need_def case_labels_distinct_def drop_bit_eq_div)

lemma upload_is_good_table:
  assumes "case_labels_distinct c"
  shows "upload_is_good c (to_size_t (SUCCESS_COPIES_TYPE_ANY c)) R s = (s \<ge> 1)"
    and "upload_is_good c (to_size_t (SUCCESS_COPIES_TYPE_QUORUM c)) R s = (s \<ge> R div 2 + 1)"
    and "upload_is_good c (to_size_t (SUCCESS_COPIES_TYPE_ALL c)) R s = (s = R)"
    and "\<not> is_copies_type c N \<Longrightarrow> upload_is_good c N R s = (s \<ge> N)"
  using assms
  by (auto simp: upload_is_good_def case_labels_distinct_def is_copies_type_def drop_bit_eq_div)

text \<open>
  C2. The table of required successes promises \<open>N\<close> for a numeric mode \<open>N\<close>. The
  \<^verbatim>\<open>default\<close> branch of \<^verbatim>\<open>uploads_need\<close> returns the replication count instead, for every
  mode that is none of the three enumerators, while the \<^verbatim>\<open>default\<close> branch of its sibling
  \<^verbatim>\<open>upload_is_good\<close> compares with \<open>N\<close>.
\<close>

theorem uploads_need_numeric_mode:
  "\<not> is_copies_type c N \<Longrightarrow> uploads_need c N R = R \<and> upload_is_good c N R s = (s \<ge> N)"
  by (simp add: uploads_need_def upload_is_good_def is_copies_type_def)

theorem uploads_need_numeric_mode_witness:
  "\<not> is_copies_type consts0 2 \<and> uploads_need consts0 2 3 = 3 \<and> (3::nat) \<noteq> 2
     \<and> upload_is_good consts0 2 3 2"
  using uploads_need_numeric_mode [of consts0 2 3 2]
  by (simp add: is_copies_type_def consts0_def to_size_t_def)

section \<open>Properties of the write engine\<close>

text \<open>The removes of a trace that grows.\<close>

lemma removes_append: "removes (xs @ ys) = removes xs @ removes ys"
  by (induction xs rule: removes.induct) auto

text \<open>An invariant of the chunk loop holds of the result when the loop ends.\<close>

lemma chunk_loop_rule:
  assumes run: "chunk_loop e c p key content tr s offset helper = Some r"
    and init: "I tr s offset helper"
    and step: "\<And>tr s offset helper tr1 s1 offset1 helper1.
        I tr s offset helper \<Longrightarrow>
        chunk_step e c p key content tr s offset helper = Again (tr1, s1, offset1, helper1) \<Longrightarrow>
        I tr1 s1 offset1 helper1"
    and exit: "\<And>tr s offset helper r.
        I tr s offset helper \<Longrightarrow> chunk_step e c p key content tr s offset helper = Exit r \<Longrightarrow> Q r"
  shows "Q r"
proof -
  let ?P = "\<lambda>e' c' p' key' content' tr s offset helper r.
      e' = e \<and> c' = c \<and> p' = p \<and> key' = key \<and> content' = content \<longrightarrow> I tr s offset helper \<longrightarrow> Q r"
  have "?P e c p key content tr s offset helper r"
  proof (rule chunk_loop.raw_induct [where P = ?P, OF _ run])
    fix loop e' c' p' key' content' tr s offset helper r
    assume IH: "\<And>e' c' p' key' content' tr s offset helper y.
        loop e' c' p' key' content' tr s offset helper = Some y \<Longrightarrow>
        ?P e' c' p' key' content' tr s offset helper y"
      and body: "(case chunk_step e' c' p' key' content' tr s offset helper of
          Again (tr1, s1, offset1, helper1) \<Rightarrow> loop e' c' p' key' content' tr1 s1 offset1 helper1
        | Exit r \<Rightarrow> Some r) = Some r"
    show "?P e' c' p' key' content' tr s offset helper r"
    proof (intro impI, elim conjE)
      assume eqs: "e' = e" "c' = c" "p' = p" "key' = key" "content' = content"
        and inv: "I tr s offset helper"
      show "Q r"
      proof (cases "chunk_step e c p key content tr s offset helper")
        case (Again st)
        obtain tr1 s1 offset1 helper1 where st: "st = (tr1, s1, offset1, helper1)"
          by (cases st) auto
        from body Again st eqs have "loop e c p key content tr1 s1 offset1 helper1 = Some r"
          by simp
        moreover have "I tr1 s1 offset1 helper1"
          using step [OF inv] Again st by simp
        ultimately show ?thesis using IH by blast
      next
        case (Exit r')
        with body eqs have "r' = r" by simp
        with exit [OF inv] Exit show ?thesis by simp
      qed
    qed
  qed
  with init show ?thesis by blast
qed

lemma chunk_step_Exit_consistent:
  "chunk_step e c p key content tr s offset helper = Exit (tr', s', Inr (lk, h')) \<Longrightarrow>
   helper_upload_is_good c h' \<Longrightarrow> upload_groups h' = map group_lr (ret h')"
  by (auto simp: chunk_step_def Let_def update_lookup_def split: sum.splits if_splits)

lemma chunk_loop_consistent:
  assumes "chunk_loop e c p key content tr s offset helper = Some (tr', s', Inr (lk, h'))"
    and "helper_upload_is_good c h'"
  shows "upload_groups h' = map group_lr (ret h')"
proof -
  let ?Q = "\<lambda>r :: call list \<times> session \<times> (error + result_entry list \<times> write_helper_t).
              \<forall>tr' s' lk h'. r = (tr', s', Inr (lk, h')) \<longrightarrow> helper_upload_is_good c h'
               \<longrightarrow> upload_groups h' = map group_lr (ret h')"
  have "?Q (tr', s', Inr (lk, h'))"
    by (rule chunk_loop_rule [where I = "\<lambda>tr s offset helper. True" and Q = ?Q, OF assms(1)])
       (auto dest: chunk_step_Exit_consistent)
  with assms(2) show ?thesis by blast
qed




lemma session_get_Inr:
  "session_get e tr s helper cl = Some (tr', s', Inr (lk, h')) \<Longrightarrow>
     h' = helper \<and> s' = s \<and> tr' = tr @ [cl] \<and> reply e tr cl = Inr lk"
  by (auto simp: session_get_def split: sum.splits)

lemma write_chunked_consistent:
  assumes "write_chunked e c p key content tr s offset helper = Some (tr', s', Inr (lk, h'))"
    and "helper_upload_is_good c h'"
  shows "upload_groups h' = map group_lr (ret h')"
  using assms
  by (auto simp: write_chunked_def Let_def split: sum.splits if_splits
           dest: chunk_loop_consistent)


lemma write_attempt_consistent:
  assumes "write_attempt e c p key content offset sz ioflags chunked s1 h0 = Some (tr, s2, Inr h)"
    and "upload_groups h0 = map group_lr (ret h0)"
    and "helper_upload_is_good c h"
  shows "upload_groups h = map group_lr (ret h)"
  using assms
  by (auto simp: write_attempt_def write_body_def update_lookup_def
           split: option.splits sum.splits if_splits prod.splits
           dest!: session_get_Inr dest: write_chunked_consistent)


lemma write_impl_eq:
  assumes "m_die_limit p \<le> state_num e"
    and "write_groups e c p key sz groups (resolve_replication_count p groups) = Inr lgroups"
  shows "write_impl e c p key data offset sz cflags ioflags groups copies_num =
     (case write_replies e c p key data offset sz cflags ioflags groups copies_num lgroups of
        None \<Rightarrow> None
      | Some (tr, s2, Inl err) \<Rightarrow> Some (tr, s2, Inl err)
      | Some (tr, s2, Inr h) \<Rightarrow>
          Some (write_finish e c key ioflags lgroups (is_chunked e c p key data ioflags) tr s2 h))"
  using assms
  by (simp add: write_impl_def write_upload_def write_replies_def Let_def new_session_def)

lemma write_impl_Inr:
  assumes "write_impl e c p key data offset sz cflags ioflags groups copies_num = Some (tr, s, Inr res)"
  obtains lgroups tr1 s1 h where
    "m_die_limit p \<le> state_num e"
    "write_groups e c p key sz groups (resolve_replication_count p groups) = Inr lgroups"
    "write_replies e c p key data offset sz cflags ioflags groups copies_num lgroups = Some (tr1, s1, Inr h)"
    "write_finish e c key ioflags lgroups (is_chunked e c p key data ioflags) tr1 s1 h = (tr, s, Inr res)"
  using assms
  by (auto simp: write_impl_def write_upload_def write_replies_def Let_def new_session_def
           split: if_splits sum.splits option.splits prod.splits)






lemma write_finish_Inr:
  assumes "write_finish e c key ioflags lgroups chunked tr s h = (tr', s', Inr res)"
  shows "helper_upload_is_good c h" and "res = ret h" and "s_cflags s' = ioflags"
    and "\<exists>tr0 s0 gs. tr' = tr0 @ [Write_metadata s0 key (remote key) gs \<lparr> tv_sec = 0, tv_nsec = 0 \<rparr>]
            \<and> s_cflags s0 = 0 \<and> mset gs = mset (upload_groups h)"
  using assms
  by (auto simp: write_finish_def get_incomplete_groups_def Let_def
           split: if_splits sum.splits prod.splits)



text \<open>Evaluating the model on concrete inputs unfolds these definitions.\<close>

lemmas model_defs = write_impl_def write_upload_def write_attempt_def write_body_def write_finish_def
  session_get_def write_replies_def upload_accepted_def
  write_groups_def get_groups_def resolve_replication_count_def resolve_success_copies_num_def
  is_chunked_def new_write_helper_def update_lookup_def helper_upload_is_good_def upload_is_good_def
  has_incomplete_groups_def parse_lookup_def new_session_def
  to_uint32_def to_int32_def to_size_t_def u64_def

lemmas fixture_defs = storage_def consts0_def proxy_def name_key_def payload_def ok_entry_def
  error_entry_def plain_lookup_result_def






















text \<open>
  C4. Scenario S2 on the code: a one-shot write (chunk size 0) in mode QUORUM to the
  groups 1, 2, 3, of which group 3 fails. The call returns the two lookups, and its
  trace holds no remove at all: the claim's remove against group 3 is not issued.
\<close>

theorem one_shot_incomplete_no_remove:
  "result_of (write_impl (storage [3] []) consts0 (proxy [1,2,3] 0) (name_key ''k'') (payload ''abc'')
       0 0 0 0 [1,2,3] (- 2))
     = Some (Inr [plain_lookup_result (ok_entry 1), plain_lookup_result (ok_entry 2)])
   \<and> removes (calls_of (write_impl (storage [3] []) consts0 (proxy [1,2,3] 0) (name_key ''k'')
       (payload ''abc'') 0 0 0 0 [1,2,3] (- 2))) = []"
  by (simp add: model_defs fixture_defs Let_def drop_bit_eq_div calls_of_def result_of_def)

text \<open>
  C4, as amended. A one-shot write in mode QUORUM to three groups whose reply carries two
  successful lookups issues the body call and the metadata write and nothing else, and
  returns the two lookups: no remove is issued. The remove from the incomplete groups is
  guarded by \<^verbatim>\<open>chunked\<close> in \<^verbatim>\<open>write_impl\<close>.
\<close>

theorem one_shot_quorum_two_of_three:
  assumes st: "m_die_limit p \<le> state_num e"
    and chunk: "m_chunk_size p = 0"
    and mode: "resolve_success_copies_num p copies_num = SUCCESS_COPIES_TYPE_QUORUM c"
    and labels: "case_labels_distinct c"
    and meta: "\<not> have_metabase p"
    and flags: "ioflags AND DNET_IO_FLAGS_PREPARE c = 0" "ioflags AND DNET_IO_FLAGS_COMMIT c = 0"
      "ioflags AND DNET_IO_FLAGS_PLAIN_WRITE c = 0"
    and s1: "s1 = \<lparr> s_groups = [g1, g2, g3], s_cflags = cflags, s_ioflags = ioflags,
                    s_filter = filters_positive \<rparr>"
    and body: "reply e [] (Write_data s1 key (pack e data) offset) = Inr lookup"
    and two: "parse_lookups e p lookup = Inr [l1, l2]"
    and md: "reply e [Write_data s1 key (pack e data) offset]
               (Write_metadata (s1\<lparr> s_cflags := 0 \<rparr>) key (remote key) [group_lr l1, group_lr l2]
                  \<lparr> tv_sec = 0, tv_nsec = 0 \<rparr>) = Inr r"
  shows "write_impl e c p key data offset sz cflags ioflags [g1, g2, g3] copies_num =
           Some ([Write_data s1 key (pack e data) offset,
                  Write_metadata (s1\<lparr> s_cflags := 0 \<rparr>) key (remote key) [group_lr l1, group_lr l2]
                    \<lparr> tv_sec = 0, tv_nsec = 0 \<rparr>],
                 s1\<lparr> s_cflags := ioflags \<rparr>, Inr [l1, l2])
         \<and> removes (calls_of (write_impl e c p key data offset sz cflags ioflags [g1, g2, g3] copies_num)) = []"
proof -
  have R: "resolve_replication_count p [g1, g2, g3] = 3"
    by (simp add: resolve_replication_count_def to_uint32_def)
  have wg: "write_groups e c p key sz [g1, g2, g3] 3 = Inr [g1, g2, g3]"
    using meta by (simp add: write_groups_def get_groups_def)
  have nc: "\<not> is_chunked e c p key data ioflags"
    using chunk by (simp add: is_chunked_def)
  have good: "upload_is_good c (to_size_t (SUCCESS_COPIES_TYPE_QUORUM c)) (to_size_t (to_int32 3))
      (length [l1, l2])"
    using labels
    by (simp add: upload_is_good_def case_labels_distinct_def to_size_t_def to_int32_def drop_bit_eq_div)
  have run: "write_impl e c p key data offset sz cflags ioflags [g1, g2, g3] copies_num =
           Some ([Write_data s1 key (pack e data) offset,
                  Write_metadata (s1\<lparr> s_cflags := 0 \<rparr>) key (remote key) [group_lr l1, group_lr l2]
                    \<lparr> tv_sec = 0, tv_nsec = 0 \<rparr>],
                 s1\<lparr> s_cflags := ioflags \<rparr>, Inr [l1, l2])"
    using st nc flags body two md good
    by (simp add: write_impl_def R wg mode write_upload_def write_attempt_def write_body_def
          session_get_def write_finish_def helper_upload_is_good_def new_write_helper_def
          update_lookup_def new_session_def s1 Let_def)
  then show ?thesis by (simp add: calls_of_def)
qed

theorem one_shot_quorum_two_of_three_witness:
  "write_impl (storage [3] []) consts0 (proxy [1,2,3] 0) (name_key ''k'') (payload ''abc'')
       0 0 0 0 [1,2,3] (- 2)
     = Some ([Write_data \<lparr>s_groups = [1,2,3], s_cflags = 0, s_ioflags = 0, s_filter = filters_positive\<rparr>
                (name_key ''k'') ''abc'' 0,
              Write_metadata \<lparr>s_groups = [1,2,3], s_cflags = 0, s_ioflags = 0, s_filter = filters_positive\<rparr>
                (name_key ''k'') ''k'' [1,2] \<lparr>tv_sec = 0, tv_nsec = 0\<rparr>],
             \<lparr>s_groups = [1,2,3], s_cflags = 0, s_ioflags = 0, s_filter = filters_positive\<rparr>,
             Inr [plain_lookup_result (ok_entry 1), plain_lookup_result (ok_entry 2)])
   \<and> removes (calls_of (write_impl (storage [3] []) consts0 (proxy [1,2,3] 0) (name_key ''k'')
       (payload ''abc'') 0 0 0 0 [1,2,3] (- 2))) = []"
proof -
  let ?e = "storage [3] []" and ?p = "proxy [1,2,3] 0" and ?k = "name_key ''k''"
  let ?s = "\<lparr>s_groups = [1,2,3], s_cflags = 0, s_ioflags = 0, s_filter = filters_positive\<rparr>"
  have st: "m_die_limit ?p \<le> state_num ?e" and chunk: "m_chunk_size ?p = 0"
    and meta: "\<not> have_metabase ?p"
    by (simp_all add: fixture_defs)
  have mode: "resolve_success_copies_num ?p (- 2) = SUCCESS_COPIES_TYPE_QUORUM consts0"
    by (simp add: resolve_success_copies_num_def consts0_def)
  have flags: "(0 :: 64 word) AND DNET_IO_FLAGS_PREPARE consts0 = 0"
    "(0 :: 64 word) AND DNET_IO_FLAGS_COMMIT consts0 = 0"
    "(0 :: 64 word) AND DNET_IO_FLAGS_PLAIN_WRITE consts0 = 0"
    by simp_all
  have body: "reply ?e [] (Write_data ?s ?k (pack ?e (payload ''abc'')) 0) = Inr [ok_entry 1, ok_entry 2]"
    by (simp add: fixture_defs)
  have two: "parse_lookups ?e ?p [ok_entry 1, ok_entry 2]
      = Inr [plain_lookup_result (ok_entry 1), plain_lookup_result (ok_entry 2)]"
    by (simp add: parse_lookup_def storage_def)
  have md: "reply ?e [Write_data ?s ?k (pack ?e (payload ''abc'')) 0]
               (Write_metadata (?s\<lparr> s_cflags := 0 \<rparr>) ?k (remote ?k)
                  [group_lr (plain_lookup_result (ok_entry 1)), group_lr (plain_lookup_result (ok_entry 2))]
                  \<lparr> tv_sec = 0, tv_nsec = 0 \<rparr>) = Inr [ok_entry 1, ok_entry 2]"
    by (simp add: fixture_defs)
  from one_shot_quorum_two_of_three [OF st chunk mode consts0_labels meta flags refl body two md,
      where sz = 0]
  show ?thesis by (simp add: fixture_defs calls_of_def)
qed

text \<open>
  C5. A write that returns has issued, as its last call, a metadata write for the key
  with the session's cflags at 0, a zero timestamp and the groups of the returned
  lookups. The session's cflags afterwards are the caller's \<open>ioflags\<close>, whatever the
  caller's \<open>cflags\<close> were: line 715 passes \<^verbatim>\<open>ioflags\<close> to \<^verbatim>\<open>set_cflags\<close>.
\<close>

theorem write_metadata_then_cflags:
  assumes run: "write_impl e c p key data offset sz cflags ioflags groups copies_num = Some (tr, s, Inr res)"
  shows "(\<exists>tr0 s0 gs. tr = tr0 @ [Write_metadata s0 key (remote key) gs \<lparr> tv_sec = 0, tv_nsec = 0 \<rparr>]
            \<and> s_cflags s0 = 0 \<and> mset gs = mset (map group_lr res))
         \<and> s_cflags s = ioflags"
proof -
  from write_impl_Inr [OF run] obtain lg tr1 s1 h where
    wr: "write_replies e c p key data offset sz cflags ioflags groups copies_num lg = Some (tr1, s1, Inr h)"
    and fin: "write_finish e c key ioflags lg (is_chunked e c p key data ioflags) tr1 s1 h = (tr, s, Inr res)"
    by metis
  note f = write_finish_Inr [OF fin]
  from wr have att: "write_attempt e c p key (pack e data) offset sz ioflags
       (is_chunked e c p key data ioflags)
       (new_session\<lparr> s_cflags := cflags, s_ioflags := ioflags, s_groups := lg \<rparr>)
       (new_write_helper (resolve_success_copies_num p copies_num)
          (to_int32 (resolve_replication_count p groups)) lg) = Some (tr1, s1, Inr h)"
    by (simp only: write_replies_def)
  have "upload_groups h = map group_lr (ret h)"
    by (rule write_attempt_consistent [OF att _ f(1)]) (simp add: new_write_helper_def)
  with f(2) have ug: "upload_groups h = map group_lr res" by simp
  from f(4) ug have "\<exists>tr0 s0 gs. tr = tr0 @ [Write_metadata s0 key (remote key) gs \<lparr> tv_sec = 0, tv_nsec = 0 \<rparr>]
            \<and> s_cflags s0 = 0 \<and> mset gs = mset (map group_lr res)"
    by simp
  with f(3) show ?thesis by simp
qed

theorem write_metadata_then_cflags_witness:
  "write_impl (storage [] []) consts0 (proxy [1,2,3] 0) (name_key ''k'') (payload ''abc'') 0 0 7 0
      [1,2,3] (- 2)
     = Some ([Write_data \<lparr>s_groups = [1,2,3], s_cflags = 7, s_ioflags = 0, s_filter = filters_positive\<rparr>
                (name_key ''k'') ''abc'' 0,
              Write_metadata \<lparr>s_groups = [1,2,3], s_cflags = 0, s_ioflags = 0, s_filter = filters_positive\<rparr>
                (name_key ''k'') ''k'' [1,2,3] \<lparr>tv_sec = 0, tv_nsec = 0\<rparr>],
             \<lparr>s_groups = [1,2,3], s_cflags = 0, s_ioflags = 0, s_filter = filters_positive\<rparr>,
             Inr [plain_lookup_result (ok_entry 1), plain_lookup_result (ok_entry 2),
                  plain_lookup_result (ok_entry 3)])
   \<and> s_cflags \<lparr>s_groups = [1,2,3], s_cflags = 0, s_ioflags = 0, s_filter = filters_positive\<rparr> = 0
   \<and> (0 :: 64 word) \<noteq> 7"
proof -
  have run: "write_impl (storage [] []) consts0 (proxy [1,2,3] 0) (name_key ''k'') (payload ''abc'') 0 0 7 0
      [1,2,3] (- 2)
     = Some ([Write_data \<lparr>s_groups = [1,2,3], s_cflags = 7, s_ioflags = 0, s_filter = filters_positive\<rparr>
                (name_key ''k'') ''abc'' 0,
              Write_metadata \<lparr>s_groups = [1,2,3], s_cflags = 0, s_ioflags = 0, s_filter = filters_positive\<rparr>
                (name_key ''k'') ''k'' [1,2,3] \<lparr>tv_sec = 0, tv_nsec = 0\<rparr>],
             \<lparr>s_groups = [1,2,3], s_cflags = 0, s_ioflags = 0, s_filter = filters_positive\<rparr>,
             Inr [plain_lookup_result (ok_entry 1), plain_lookup_result (ok_entry 2),
                  plain_lookup_result (ok_entry 3)])"
    by (simp add: model_defs fixture_defs Let_def drop_bit_eq_div)
  from write_metadata_then_cflags [OF run] run show ?thesis by simp
qed

section \<open>Properties of the chunked write\<close>

text \<open>The helper stays good while every chunk succeeds in all the target groups.\<close>

lemma helper_sound_good:
  "helper_sound scn rc lgroups h \<Longrightarrow>
   upload_is_good c (to_size_t scn) (to_size_t rc) (length lgroups) \<Longrightarrow> helper_upload_is_good c h"
  by (auto simp: helper_sound_def helper_upload_is_good_def dest: mset_eq_length)

lemma helper_sound_update:
  "helper_sound scn rc lgroups h \<Longrightarrow> mset (map group_lr ls) = mset (upload_groups h) \<Longrightarrow>
   helper_sound scn rc lgroups (update_lookup ls b h)"
  by (simp add: helper_sound_def update_lookup_def)

lemma all_groups_succeedD:
  assumes "all_groups_succeed e p" "is_body_call cl"
  obtains es ls where "reply e tr cl = Inr es" "parse_lookups e p es = Inr ls"
    "mset (map group_lr ls) = mset (s_groups (call_session cl))"
  using assms unfolding all_groups_succeed_def by blast

lemma chunk_count_less: "0 < C \<Longrightarrow> m * C < S \<longleftrightarrow> m < chunk_count S C"
proof -
  assume C: "0 < C"
  have "m < chunk_count S C \<longleftrightarrow> Suc m \<le> (S + C - 1) div C"
    by (simp add: chunk_count_def Suc_le_eq)
  also have "\<dots> \<longleftrightarrow> Suc m * C \<le> S + C - 1"
    using C by (simp add: less_eq_div_iff_mult_less_eq)
  also have "\<dots> \<longleftrightarrow> m * C < S" using C by (cases S) auto
  finally show ?thesis by simp
qed

lemma chunk_step_plain:
  assumes ok: "all_groups_succeed e p"
    and C: "to_size_t (m_chunk_size p) = C"
    and sound: "helper_sound scn rc lgroups h"
    and acc: "upload_is_good c (to_size_t scn) (to_size_t rc) (length lgroups)"
    and more: "off + C + C < length content" and small: "length content + C < 2 ^ 64"
  obtains ls where
    "chunk_step e c p key content tr s off h =
       Again (tr @ [Write_plain (s\<lparr> s_groups := upload_groups h \<rparr>) key
                      (slice_data content (off + C) C) (off + C)],
              s\<lparr> s_groups := upload_groups h \<rparr>, off + C, update_lookup ls False h)"
    "helper_sound scn rc lgroups (update_lookup ls False h)"
proof -
  let ?s1 = "s\<lparr> s_groups := upload_groups h \<rparr>"
  let ?cl = "Write_plain ?s1 key (slice_data content (off + C) C) (off + C)"
  from more small have u1: "u64 (off + C) = off + C" and u2: "u64 (off + C + C) = off + C + C"
    by (simp_all add: u64_def)
  obtain es ls where r: "reply e tr ?cl = Inr es" and pl: "parse_lookups e p es = Inr ls"
    and ms: "mset (map group_lr ls) = mset (s_groups (call_session ?cl))"
    by (rule all_groups_succeedD [OF ok, of ?cl tr]) simp_all
  from ms have ms': "mset (map group_lr ls) = mset (upload_groups h)" by simp
  note snd = helper_sound_update [OF sound ms', of False]
  from helper_sound_good [OF snd acc] have good: "helper_upload_is_good c (update_lookup ls False h)" .
  have eq: "chunk_step e c p key content tr s off h =
       Again (tr @ [?cl], ?s1, off + C, update_lookup ls False h)"
    using more r pl good by (simp add: chunk_step_def C u1 u2 Let_def)
  show ?thesis by (rule that [OF eq snd])
qed

lemma chunk_step_commit:
  assumes ok: "all_groups_succeed e p"
    and C: "to_size_t (m_chunk_size p) = C"
    and sound: "helper_sound scn rc lgroups h"
    and last: "length content \<le> off + C + C" and inside: "off + C < length content"
    and small: "length content + C < 2 ^ 64"
  obtains es ls where
    "chunk_step e c p key content tr s off h =
       Exit (tr @ [Write_commit (s\<lparr> s_groups := upload_groups h \<rparr>) key
                      (drop (off + C) content) (off + C) (length content)],
              s\<lparr> s_groups := upload_groups h \<rparr>, Inr (es, update_lookup ls True h))"
    "reply e tr (Write_commit (s\<lparr> s_groups := upload_groups h \<rparr>) key
                      (drop (off + C) content) (off + C) (length content)) = Inr es"
    "parse_lookups e p es = Inr ls"
    "helper_sound scn rc lgroups (update_lookup ls True h)"
proof -
  let ?s1 = "s\<lparr> s_groups := upload_groups h \<rparr>"
  let ?cl = "Write_commit ?s1 key (drop (off + C) content) (off + C) (length content)"
  from inside small have u1: "u64 (off + C) = off + C" and u2: "u64 (off + C + C) = off + C + C"
    by (simp_all add: u64_def)
  have u3: "u64 (length content + 2 ^ 64 - (off + C)) = length content - (off + C)"
  proof -
    from inside have "length content + 2 ^ 64 - (off + C) = (length content - (off + C)) + 2 ^ 64"
      by simp
    moreover from small have "length content - (off + C) < 2 ^ 64" by simp
    ultimately show ?thesis unfolding u64_def by (simp only: mod_add_self2 mod_less)
  qed
  have sl: "slice_data content (off + C) (length content - (off + C)) = drop (off + C) content"
    by (simp add: slice_data_def)
  obtain es ls where r: "reply e tr ?cl = Inr es" and pl: "parse_lookups e p es = Inr ls"
    and ms: "mset (map group_lr ls) = mset (s_groups (call_session ?cl))"
    by (rule all_groups_succeedD [OF ok, of ?cl tr]) simp_all
  from ms have ms': "mset (map group_lr ls) = mset (upload_groups h)" by simp
  note snd = helper_sound_update [OF sound ms', of True]
  have eq: "chunk_step e c p key content tr s off h =
       Exit (tr @ [?cl], ?s1, Inr (es, update_lookup ls True h))"
    unfolding chunk_step_def Let_def C u1 u2 u3 sl
    using last r pl by (simp add: not_less [symmetric])
  show ?thesis by (rule that [OF eq r pl snd])
qed

lemma body_calls_append: "body_calls (xs @ ys) = body_calls xs @ body_calls ys"
  by (induction xs rule: body_calls.induct) auto

lemma chunk_loop_plan:
  assumes ok: "all_groups_succeed e p"
    and C: "to_size_t (m_chunk_size p) = C" and Cpos: "0 < C"
    and small: "length content + C < 2 ^ 64"
    and acc: "upload_is_good c (to_size_t scn) (to_size_t rc) (length lgroups)"
  shows "helper_sound scn rc lgroups h \<Longrightarrow> Suc j * C < length content \<Longrightarrow>
     \<exists>tr0 cl s' es ls h'.
        chunk_loop e c p key content tr s (j * C) h = Some (tr @ tr0 @ [cl], s', Inr (es, h'))
        \<and> body_calls (tr0 @ [cl]) =
            map (\<lambda>i. Plain (i * C) (take C (drop (i * C) content)))
              [Suc j..<chunk_count (length content) C - 1]
            @ [Commit ((chunk_count (length content) C - 1) * C)
                 (drop ((chunk_count (length content) C - 1) * C) content) (length content)]
        \<and> body_calls [cl] =
            [Commit ((chunk_count (length content) C - 1) * C)
               (drop ((chunk_count (length content) C - 1) * C) content) (length content)]
        \<and> removes (tr0 @ [cl]) = []
        \<and> reply e (tr @ tr0) cl = Inr es \<and> parse_lookups e p es = Inr ls
        \<and> ret h' = ls \<and> helper_sound scn rc lgroups h'"
proof (induction "chunk_count (length content) C - (j + 2)" arbitrary: j tr s h)
  case 0
  let ?n = "chunk_count (length content) C"
  from 0(3) have jn: "Suc j < ?n" unfolding chunk_count_less [OF Cpos] .
  with 0(1) have n: "?n = j + 2" by simp
  then have "\<not> (j + 2) < ?n" by simp
  then have "\<not> (j + 2) * C < length content" unfolding chunk_count_less [OF Cpos] .
  then have last: "length content \<le> j * C + C + C" by (simp add: algebra_simps)
  from 0(3) have inside: "j * C + C < length content" by simp
  obtain es ls where
    st: "chunk_step e c p key content tr s (j * C) h =
       Exit (tr @ [Write_commit (s\<lparr> s_groups := upload_groups h \<rparr>) key
                      (drop (j * C + C) content) (j * C + C) (length content)],
              s\<lparr> s_groups := upload_groups h \<rparr>, Inr (es, update_lookup ls True h))"
    and r: "reply e tr (Write_commit (s\<lparr> s_groups := upload_groups h \<rparr>) key
                      (drop (j * C + C) content) (j * C + C) (length content)) = Inr es"
    and pl: "parse_lookups e p es = Inr ls"
    and snd: "helper_sound scn rc lgroups (update_lookup ls True h)"
    by (rule chunk_step_commit [OF ok C 0(2) last inside small])
  have n1: "?n - 1 = Suc j" using n by simp
  have off: "j * C + C = Suc j * C" by simp
  let ?cl = "Write_commit (s\<lparr> s_groups := upload_groups h \<rparr>) key
                      (drop (j * C + C) content) (j * C + C) (length content)"
  have run: "chunk_loop e c p key content tr s (j * C) h
      = Some (tr @ [] @ [?cl], s\<lparr> s_groups := upload_groups h \<rparr>, Inr (es, update_lookup ls True h))"
    by (subst chunk_loop.simps) (simp add: st)
  have bc: "body_calls ([] @ [?cl]) =
            map (\<lambda>i. Plain (i * C) (take C (drop (i * C) content))) [Suc j..<?n - 1]
            @ [Commit ((?n - 1) * C) (drop ((?n - 1) * C) content) (length content)]"
    unfolding n1 by (simp add: off del: mult_Suc)
  have fin: "body_calls [?cl] =
            [Commit ((?n - 1) * C) (drop ((?n - 1) * C) content) (length content)]"
    unfolding n1 by (simp add: off del: mult_Suc)
  have rm: "removes ([] @ [?cl]) = []" by simp
  from r have r': "reply e (tr @ []) ?cl = Inr es" by simp
  have rt: "ret (update_lookup ls True h) = ls" by (simp add: update_lookup_def)
  from run bc fin rm r' pl rt snd show ?case by blast
next
  case (Suc k)
  let ?n = "chunk_count (length content) C"
  from Suc(2) have "(j + 2) < ?n" by simp
  then have "(j + 2) * C < length content" unfolding chunk_count_less [OF Cpos] .
  then have more: "j * C + C + C < length content" by (simp add: algebra_simps)
  obtain ls where
    st: "chunk_step e c p key content tr s (j * C) h =
       Again (tr @ [Write_plain (s\<lparr> s_groups := upload_groups h \<rparr>) key
                      (slice_data content (j * C + C) C) (j * C + C)],
              s\<lparr> s_groups := upload_groups h \<rparr>, j * C + C, update_lookup ls False h)"
    and snd: "helper_sound scn rc lgroups (update_lookup ls False h)"
    by (rule chunk_step_plain [OF ok C Suc(3) acc more small])
  let ?cl = "Write_plain (s\<lparr> s_groups := upload_groups h \<rparr>) key
                      (slice_data content (j * C + C) C) (j * C + C)"
  have k: "k = ?n - (Suc j + 2)" using Suc(2) by simp
  have nxt: "Suc (Suc j) * C < length content" using more by simp
  from Suc(1) [OF k snd nxt, of "tr @ [?cl]" "s\<lparr> s_groups := upload_groups h \<rparr>"]
  obtain tr0 cl s' es ls' h' where
    run: "chunk_loop e c p key content (tr @ [?cl]) (s\<lparr> s_groups := upload_groups h \<rparr>)
            (Suc j * C) (update_lookup ls False h) = Some ((tr @ [?cl]) @ tr0 @ [cl], s', Inr (es, h'))"
    and bc: "body_calls (tr0 @ [cl]) =
            map (\<lambda>i. Plain (i * C) (take C (drop (i * C) content))) [Suc (Suc j)..<?n - 1]
            @ [Commit ((?n - 1) * C) (drop ((?n - 1) * C) content) (length content)]"
    and fin: "body_calls [cl] =
            [Commit ((?n - 1) * C) (drop ((?n - 1) * C) content) (length content)]"
    and rm: "removes (tr0 @ [cl]) = []"
    and r: "reply e ((tr @ [?cl]) @ tr0) cl = Inr es" and pl: "parse_lookups e p es = Inr ls'"
    and rt: "ret h' = ls'" and snd': "helper_sound scn rc lgroups h'"
    by blast
  have off: "j * C + C = Suc j * C" by simp
  from \<open>(j + 2) < ?n\<close> have upt: "[Suc j..<?n - 1] = Suc j # [Suc (Suc j)..<?n - 1]"
    by (simp add: upt_conv_Cons)
  have bc': "body_calls ((?cl # tr0) @ [cl]) =
            map (\<lambda>i. Plain (i * C) (take C (drop (i * C) content))) [Suc j..<?n - 1]
            @ [Commit ((?n - 1) * C) (drop ((?n - 1) * C) content) (length content)]"
    unfolding upt using bc by (simp add: slice_data_def off del: mult_Suc)
  have rm': "removes ((?cl # tr0) @ [cl]) = []" using rm by simp
  have run': "chunk_loop e c p key content tr s (j * C) h
      = Some (tr @ (?cl # tr0) @ [cl], s', Inr (es, h'))"
    apply (subst chunk_loop.simps)
    using run by (simp add: st off del: mult_Suc)
  from r have r': "reply e (tr @ (?cl # tr0)) cl = Inr es" by simp
  from run' bc' fin rm' r' pl rt snd' show ?case by blast
qed

lemma write_chunked_all_chunks:
  assumes ok: "all_groups_succeed e p"
    and C: "to_size_t (m_chunk_size p) = C" and Cpos: "0 < C"
    and big: "C < length content" and small: "length content + C < 2 ^ 64"
    and acc: "upload_is_good c (to_size_t scn) (to_size_t rc) (length lgroups)"
    and h: "success_copies_num h = scn" "replication_count h = rc" "desired_groups h = lgroups"
    and s: "s_groups s = lgroups"
  shows "\<exists>tr0 cl s' es ls h'.
        write_chunked e c p key content [] s 0 h = Some (tr0 @ [cl], s', Inr (es, h'))
        \<and> body_calls (tr0 @ [cl]) = chunk_plan content C
        \<and> body_calls [cl] =
            [Commit ((chunk_count (length content) C - 1) * C)
               (drop ((chunk_count (length content) C - 1) * C) content) (length content)]
        \<and> removes (tr0 @ [cl]) = []
        \<and> reply e tr0 cl = Inr es \<and> parse_lookups e p es = Inr ls
        \<and> ret h' = ls \<and> helper_sound scn rc lgroups h'"
proof -
  let ?n = "chunk_count (length content) C"
  let ?cl0 = "Write_prepare s key (slice_data content 0 C) 0 (length content)"
  obtain es0 ls0 where r0: "reply e [] ?cl0 = Inr es0" and pl0: "parse_lookups e p es0 = Inr ls0"
    and ms: "mset (map group_lr ls0) = mset (s_groups (call_session ?cl0))"
    by (rule all_groups_succeedD [OF ok, of ?cl0 "[]"]) simp_all
  have snd0: "helper_sound scn rc lgroups (update_lookup ls0 False h)"
    using ms h s by (simp add: helper_sound_def update_lookup_def)
  from helper_sound_good [OF snd0 acc] have good: "helper_upload_is_good c (update_lookup ls0 False h)" .
  from big have nxt: "Suc 0 * C < length content" by simp
  from chunk_loop_plan [OF ok C Cpos small acc snd0 nxt, of key "[?cl0]" s]
  obtain tr0 cl s' es ls h' where
    run: "chunk_loop e c p key content [?cl0] s (0 * C) (update_lookup ls0 False h)
            = Some ([?cl0] @ tr0 @ [cl], s', Inr (es, h'))"
    and bc: "body_calls (tr0 @ [cl]) =
            map (\<lambda>i. Plain (i * C) (take C (drop (i * C) content))) [Suc 0..<?n - 1]
            @ [Commit ((?n - 1) * C) (drop ((?n - 1) * C) content) (length content)]"
    and fin: "body_calls [cl] =
            [Commit ((?n - 1) * C) (drop ((?n - 1) * C) content) (length content)]"
    and rm: "removes (tr0 @ [cl]) = []"
    and r: "reply e ([?cl0] @ tr0) cl = Inr es" and pl: "parse_lookups e p es = Inr ls"
    and rt: "ret h' = ls" and snd: "helper_sound scn rc lgroups h'"
    by blast
  have run': "write_chunked e c p key content [] s 0 h = Some ((?cl0 # tr0) @ [cl], s', Inr (es, h'))"
    using run r0 pl0 good by (simp add: write_chunked_def C Let_def)
  have bc': "body_calls ((?cl0 # tr0) @ [cl]) = chunk_plan content C"
    using bc by (simp add: chunk_plan_def Let_def slice_data_def)
  have rm': "removes ((?cl0 # tr0) @ [cl]) = []" using rm by simp
  from r have r': "reply e (?cl0 # tr0) cl = Inr es" by simp
  from run' bc' fin rm' r' pl rt snd show ?thesis by blast
qed

lemma flags_clear:
  fixes x :: "64 word"
  assumes "x AND (a OR b OR d) = 0"
  shows "x AND a = 0" "x AND b = 0" "x AND d = 0"
  using assms by (simp_all add: bit.conj_disj_distrib or_eq_0_iff)

lemma chunk_plan_length:
  assumes "0 < C" "C < length content"
  shows "length (chunk_plan content C) = chunk_count (length content) C"
proof -
  from assms have "Suc 0 * C < length content" by simp
  then have "Suc 0 < chunk_count (length content) C" unfolding chunk_count_less [OF assms(1)] .
  then show ?thesis by (simp add: chunk_plan_def Let_def)
qed

text \<open>
  The sizes of the chunks: a plain write carries \<open>C\<close> bytes, and the commit carries the
  \<open>S mod C\<close> bytes that remain, or \<open>C\<close> when \<open>C\<close> divides \<open>S\<close>.
\<close>

lemma plain_chunk_size:
  assumes C: "0 < C" and i: "i < chunk_count (length content) C - 1"
  shows "length (take C (drop (i * C) content)) = C"
proof -
  from i have "Suc i < chunk_count (length content) C" by simp
  then have "Suc i * C < length content" unfolding chunk_count_less [OF C, symmetric] .
  then show ?thesis by simp
qed

lemma last_chunk_size:
  assumes C: "0 < C" and S: "0 < S"
  shows "S - (chunk_count S C - 1) * C = (if S mod C = 0 then C else S mod C)"
proof -
  let ?n = "chunk_count S C"
  define d where "d = S - (?n - 1) * C"
  from S have "0 * C < S" by simp
  then have npos: "0 < ?n" unfolding chunk_count_less [OF C] .
  then have "?n - 1 < ?n" by simp
  then have lo: "(?n - 1) * C < S" unfolding chunk_count_less [OF C, symmetric] .
  have "\<not> ?n < ?n" by simp
  then have "\<not> ?n * C < S" unfolding chunk_count_less [OF C, symmetric] .
  then have hi: "S \<le> (?n - 1) * C + C" using npos by (cases ?n) (simp_all add: algebra_simps)
  from lo have Seq: "S = (?n - 1) * C + d" and dpos: "0 < d" by (simp_all add: d_def)
  from hi Seq have dle: "d \<le> C" by simp
  have "(if S mod C = 0 then C else S mod C) = d"
  proof (cases "d = C")
    case True
    have "((?n - 1) * C + C) mod C = 0" by simp
    with Seq True have "S mod C = 0" by simp
    with True show ?thesis by simp
  next
    case False
    with dle have "d < C" by simp
    then have "((?n - 1) * C + d) mod C = d" by simp
    with Seq have "S mod C = d" by simp
    with dpos show ?thesis by simp
  qed
  then show ?thesis by (simp add: d_def)
qed

lemma write_finish_complete:
  assumes good: "helper_upload_is_good c h"
    and full: "length (desired_groups h) = length (upload_groups h)"
  shows "\<exists>meta s'. write_finish e c key ioflags lgroups chunked tr s h
          = (tr @ [meta], s',
             case reply e tr meta of Inl err \<Rightarrow> Inl err | Inr x \<Rightarrow> Inr (ret h))
          \<and> body_calls [meta] = [] \<and> removes [meta] = []"
  using assms
  by (simp add: write_finish_def has_incomplete_groups_def Let_def split: sum.splits)

lemma storage_all_groups_succeed: "all_groups_succeed (storage [] entries) p"
  unfolding all_groups_succeed_def
proof (intro allI impI)
  fix tr cl
  assume b: "is_body_call cl"
  have gen: "parse_lookups (storage [] entries) p (map ok_entry gs) = Inr (map (\<lambda>g. plain_lookup_result (ok_entry g)) gs)" for gs
    by (induction gs) (simp_all add: parse_lookup_def storage_def)
  from b have r: "reply (storage [] entries) tr cl = Inr (map ok_entry (s_groups (call_session cl)))"
    by (cases cl) (simp_all add: storage_def)
  have "mset (map group_lr (map (\<lambda>g. plain_lookup_result (ok_entry g)) (s_groups (call_session cl))))
          = mset (s_groups (call_session cl))"
    by (simp add: plain_lookup_result_def ok_entry_def comp_def)
  with r gen show "\<exists>es ls. reply (storage [] entries) tr cl = Inr es
       \<and> parse_lookups (storage [] entries) p es = Inr ls
       \<and> mset (map group_lr ls) = mset (s_groups (call_session cl))"
    by blast
qed

text \<open>
  C3. Scenario S4 with the success mode 4 in place of QUORUM: a payload of 3000 bytes,
  chunks of 1024 bytes, the groups 1, 2, 3, all of them healthy. The write is chunked and
  \<open>\<lceil>3000/1024\<rceil> = 3\<close>; the prepare succeeds in all three groups, and three
  successes do not satisfy the mode. The loop is not entered: the prepare is the only
  body call, a remove follows it, and the call fails.
\<close>

theorem chunked_write_mode_above_groups:
  "is_chunked (storage [] []) consts0 (proxy [1,2,3] 1024) (name_key ''k'')
      (payload (replicate 3000 CHR ''x'')) 0
   \<and> chunk_count (length (pack (storage [] []) (payload (replicate 3000 CHR ''x'')))) 1024 = 3
   \<and> write_impl (storage [] []) consts0 (proxy [1,2,3] 1024) (name_key ''k'')
       (payload (replicate 3000 CHR ''x'')) 0 0 0 0 [1,2,3] 4
     = Some ([Write_prepare \<lparr>s_groups = [1,2,3], s_cflags = 0, s_ioflags = 0, s_filter = filters_positive\<rparr>
                (name_key ''k'') (replicate 1024 CHR ''x'') 0 3000,
              Remove \<lparr>s_groups = [1,2,3], s_cflags = 0, s_ioflags = 0, s_filter = filters_all\<rparr> ''k''],
             \<lparr>s_groups = [1,2,3], s_cflags = 0, s_ioflags = 0, s_filter = filters_all\<rparr>,
             Inl (runtime_error ''Not enough copies was written, or problems with chunked upload''))
   \<and> reply (storage [] []) []
        (Write_prepare \<lparr>s_groups = [1,2,3], s_cflags = 0, s_ioflags = 0, s_filter = filters_positive\<rparr>
           (name_key ''k'') (replicate 1024 CHR ''x'') 0 3000) = Inr [ok_entry 1, ok_entry 2, ok_entry 3]"
  by (simp add: model_defs fixture_defs write_chunked_def slice_data_def chunk_count_def Let_def)

text \<open>
  C3, as amended. A chunked write from offset 0 (chunk size \<open>C > 0\<close>, a packed payload of
  \<open>S > C\<close> bytes with \<open>S + C < 2\<^sup>6\<^sup>4\<close>, a key given by name, none of PREPARE, COMMIT
  and PLAIN_WRITE in the ioflags) in which every chunk succeeds in all target groups, to
  a number of target groups that satisfies the acceptance predicate of the call, issues
  exactly \<open>\<lceil>S/C\<rceil>\<close> body calls: the prepare with the bytes \<open>[0, C)\<close> that announces
  \<open>S\<close>, the plain writes of the next chunks, and last the commit with the bytes that
  remain. No remove is issued, the metadata write follows the commit, and unless the
  metadata write throws the call returns the parsed reply of the commit.
\<close>

theorem chunked_write_plan:
  assumes alive: "m_die_limit p \<le> state_num e"
    and wg: "write_groups e c p key sz groups (resolve_replication_count p groups) = Inr lgroups"
    and Cpos: "0 < to_size_t (m_chunk_size p)"
    and big: "to_size_t (m_chunk_size p) < length (pack e data)"
    and small: "length (pack e data) + to_size_t (m_chunk_size p) < 2 ^ 64"
    and name: "\<not> by_id key"
    and flags: "ioflags AND (DNET_IO_FLAGS_PREPARE c OR DNET_IO_FLAGS_COMMIT c
                  OR DNET_IO_FLAGS_PLAIN_WRITE c) = 0"
    and ok: "all_groups_succeed e p"
    and acc: "upload_accepted c p groups copies_num (length lgroups)"
  shows "\<exists>tr cl meta s' es ls.
      write_impl e c p key data 0 sz cflags ioflags groups copies_num
        = Some (tr @ [cl, meta], s',
                case reply e (tr @ [cl]) meta of Inl err \<Rightarrow> Inl err | Inr x \<Rightarrow> Inr ls)
      \<and> body_calls (tr @ [cl]) = chunk_plan (pack e data) (to_size_t (m_chunk_size p))
      \<and> length (body_calls (tr @ [cl]))
            = chunk_count (length (pack e data)) (to_size_t (m_chunk_size p))
      \<and> body_calls [cl] =
            [Commit ((chunk_count (length (pack e data)) (to_size_t (m_chunk_size p)) - 1)
                       * to_size_t (m_chunk_size p))
               (drop ((chunk_count (length (pack e data)) (to_size_t (m_chunk_size p)) - 1)
                       * to_size_t (m_chunk_size p)) (pack e data))
               (length (pack e data))]
      \<and> body_calls [meta] = [] \<and> removes (tr @ [cl, meta]) = []
      \<and> reply e tr cl = Inr es \<and> parse_lookups e p es = Inr ls"
proof -
  let ?C = "to_size_t (m_chunk_size p)" and ?content = "pack e data"
  let ?scn = "resolve_success_copies_num p copies_num"
  let ?rc = "to_int32 (resolve_replication_count p groups)"
  let ?s = "new_session\<lparr> s_cflags := cflags, s_ioflags := ioflags, s_groups := lgroups \<rparr>"
  let ?h = "new_write_helper ?scn ?rc lgroups"
  from Cpos have nz: "m_chunk_size p \<noteq> 0" by (auto simp: to_size_t_def)
  with big name flags have ch: "is_chunked e c p key data ioflags" by (simp add: is_chunked_def)
  note fl = flags_clear [OF flags]
  from acc have acc': "upload_is_good c (to_size_t ?scn) (to_size_t ?rc) (length lgroups)"
    by (simp add: upload_accepted_def)
  from write_chunked_all_chunks [OF ok refl Cpos big small acc', of ?h ?s key]
  obtain tr0 cl s' es ls h' where
    run: "write_chunked e c p key ?content [] ?s 0 ?h = Some (tr0 @ [cl], s', Inr (es, h'))"
    and bc: "body_calls (tr0 @ [cl]) = chunk_plan ?content ?C"
    and fin: "body_calls [cl] = [Commit ((chunk_count (length ?content) ?C - 1) * ?C)
               (drop ((chunk_count (length ?content) ?C - 1) * ?C) ?content) (length ?content)]"
    and rm: "removes (tr0 @ [cl]) = []"
    and r: "reply e tr0 cl = Inr es" and pl: "parse_lookups e p es = Inr ls"
    and rt: "ret h' = ls" and snd: "helper_sound ?scn ?rc lgroups h'"
    by (auto simp: new_write_helper_def new_session_def)
  have wr: "write_replies e c p key data 0 sz cflags ioflags groups copies_num lgroups
      = Some (tr0 @ [cl], s', Inr h')"
    using run ch fl by (simp add: write_replies_def write_attempt_def write_body_def)
  from helper_sound_good [OF snd acc'] have good: "helper_upload_is_good c h'" .
  from snd have full: "length (desired_groups h') = length (upload_groups h')"
    by (auto simp: helper_sound_def dest: mset_eq_length)
  from write_finish_complete [OF good full, of e key ioflags lgroups True "tr0 @ [cl]" s']
  obtain meta s'' where
    wf: "write_finish e c key ioflags lgroups True (tr0 @ [cl]) s' h'
          = ((tr0 @ [cl]) @ [meta], s'',
             case reply e (tr0 @ [cl]) meta of Inl err \<Rightarrow> Inl err | Inr x \<Rightarrow> Inr (ret h'))"
    and nb: "body_calls [meta] = []" and nr: "removes [meta] = []"
    by blast
  have res: "write_impl e c p key data 0 sz cflags ioflags groups copies_num
        = Some (tr0 @ [cl, meta], s'',
                case reply e (tr0 @ [cl]) meta of Inl err \<Rightarrow> Inl err | Inr x \<Rightarrow> Inr ls)"
    using wf [unfolded rt] ch by (simp add: write_impl_eq [OF alive wg] wr)
  have len: "length (body_calls (tr0 @ [cl])) = chunk_count (length ?content) ?C"
    unfolding bc by (rule chunk_plan_length [OF Cpos big])
  have rm': "removes (tr0 @ [cl, meta]) = []"
    using rm nr removes_append [of "tr0 @ [cl]" "[meta]"] by simp
  from res bc len fin nb rm' r pl show ?thesis by blast
qed

theorem chunked_write_plan_witness:
  "body_calls (calls_of (write_impl (storage [] []) consts0 (proxy [1,2,3] 1024) (name_key ''k'')
       (payload (replicate 3000 CHR ''x'')) 0 0 0 0 [1,2,3] (- 2)))
     = [Prepare 0 (replicate 1024 CHR ''x'') 3000, Plain 1024 (replicate 1024 CHR ''x''),
        Commit 2048 (replicate 952 CHR ''x'') 3000]
   \<and> chunk_count 3000 1024 = 3
   \<and> result_of (write_impl (storage [] []) consts0 (proxy [1,2,3] 1024) (name_key ''k'')
       (payload (replicate 3000 CHR ''x'')) 0 0 0 0 [1,2,3] (- 2))
     = Some (Inr [plain_lookup_result (ok_entry 1), plain_lookup_result (ok_entry 2),
                  plain_lookup_result (ok_entry 3)])"
proof -
  let ?e = "storage [] []" and ?p = "proxy [1,2,3] 1024" and ?k = "name_key ''k''"
  let ?d = "replicate 3000 CHR ''x''"
  let ?s = "\<lparr>s_groups = [1,2,3], s_cflags = 0, s_ioflags = 0, s_filter = filters_positive\<rparr>"
  have alive: "m_die_limit ?p \<le> state_num ?e" by (simp add: fixture_defs)
  have wg: "write_groups ?e consts0 ?p ?k 0 [1,2,3] (resolve_replication_count ?p [1,2,3]) = Inr [1,2,3]"
    by (simp add: model_defs fixture_defs Let_def)
  have C: "to_size_t (m_chunk_size ?p) = 1024" by (simp add: proxy_def to_size_t_def)
  have S: "pack ?e (payload ?d) = ?d" by (simp add: fixture_defs)
  have Cpos: "0 < to_size_t (m_chunk_size ?p)" unfolding C by simp
  have big: "to_size_t (m_chunk_size ?p) < length (pack ?e (payload ?d))" unfolding C S by simp
  have small: "length (pack ?e (payload ?d)) + to_size_t (m_chunk_size ?p) < 2 ^ 64"
    unfolding C S by simp
  have name: "\<not> by_id ?k" by (simp add: name_key_def)
  have flags: "(0 :: 64 word) AND (DNET_IO_FLAGS_PREPARE consts0 OR DNET_IO_FLAGS_COMMIT consts0
                  OR DNET_IO_FLAGS_PLAIN_WRITE consts0) = 0" by simp
  have acc: "upload_accepted consts0 ?p [1,2,3] (- 2) (length [1, 2, 3 :: int])"
    by (simp add: model_defs fixture_defs Let_def drop_bit_eq_div)
  have plan: "chunk_plan ?d 1024
      = [Prepare 0 (replicate 1024 CHR ''x'') 3000, Plain 1024 (replicate 1024 CHR ''x''),
         Commit 2048 (replicate 952 CHR ''x'') 3000]"
    and cnt: "chunk_count 3000 1024 = 3"
    by (simp_all add: chunk_plan_def chunk_count_def Let_def numeral_2_eq_2)
  have ev: "write_impl ?e consts0 ?p ?k (payload ?d) 0 0 0 0 [1,2,3] (- 2)
     = Some ([Write_prepare ?s ?k (replicate 1024 CHR ''x'') 0 3000,
              Write_plain ?s ?k (replicate 1024 CHR ''x'') 1024,
              Write_commit ?s ?k (replicate 952 CHR ''x'') 2048 3000,
              Write_metadata ?s ?k ''k'' [1,2,3] \<lparr>tv_sec = 0, tv_nsec = 0\<rparr>],
             ?s,
             Inr [plain_lookup_result (ok_entry 1), plain_lookup_result (ok_entry 2),
                  plain_lookup_result (ok_entry 3)])"
    apply (simp add: model_defs fixture_defs write_chunked_def slice_data_def Let_def drop_bit_eq_div)
    apply (subst chunk_loop.simps)
    apply (simp add: chunk_step_def model_defs fixture_defs slice_data_def Let_def drop_bit_eq_div)
    apply (subst chunk_loop.simps)
    apply (simp add: chunk_step_def model_defs fixture_defs slice_data_def Let_def drop_bit_eq_div)
    done
  from chunked_write_plan [OF alive wg Cpos big small name flags storage_all_groups_succeed acc,
      where cflags = 0]
  obtain tr cl meta s' r where
    run: "write_impl ?e consts0 ?p ?k (payload ?d) 0 0 0 0 [1,2,3] (- 2)
            = Some (tr @ [cl, meta], s', r)"
    and bc: "body_calls (tr @ [cl]) = chunk_plan (pack ?e (payload ?d)) (to_size_t (m_chunk_size ?p))"
    and nb: "body_calls [meta] = []"
    by blast
  have "body_calls (tr @ [cl, meta]) = body_calls (tr @ [cl]) @ body_calls [meta]"
    using body_calls_append [of "tr @ [cl]" "[meta]"] by simp
  with bc nb have "body_calls (tr @ [cl, meta])
      = [Prepare 0 (replicate 1024 CHR ''x'') 3000, Plain 1024 (replicate 1024 CHR ''x''),
         Commit 2048 (replicate 952 CHR ''x'') 3000]"
    unfolding C S plan by simp
  with run have one: "body_calls (calls_of (write_impl ?e consts0 ?p ?k (payload ?d) 0 0 0 0 [1,2,3] (- 2)))
      = [Prepare 0 (replicate 1024 CHR ''x'') 3000, Plain 1024 (replicate 1024 CHR ''x''),
         Commit 2048 (replicate 952 CHR ''x'') 3000]"
    by (simp add: calls_of_def)
  have three: "result_of (write_impl ?e consts0 ?p ?k (payload ?d) 0 0 0 0 [1,2,3] (- 2))
     = Some (Inr [plain_lookup_result (ok_entry 1), plain_lookup_result (ok_entry 2),
                  plain_lookup_result (ok_entry 3)])"
    unfolding ev by (simp add: result_of_def)
  from one cnt three show ?thesis by - (intro conjI)
qed

section \<open>Properties of the bulk engine\<close>

text \<open>
  C9. With an empty key list both bulk operations return the empty map and issue no call:
  for every configuration (the default group list may be empty), every group argument
  and, for the bulk write, every data list.
\<close>

theorem bulk_empty_keys:
  "bulk_read_impl e c p [] cflags groups = ([], Inr [])
   \<and> bulk_write_impl e c p [] data cflags groups copies_num = ([], Inr [])"
  by (simp add: bulk_read_impl_def bulk_write_impl_def)

text \<open>With a key, an empty selection is an error: the early return is what avoids it.\<close>

lemma bulk_no_groups:
  "get_groups e (p\<lparr> m_groups := [] \<rparr>) k [] 0 = Inl (runtime_error ''There is no groups'')"
  by (simp add: get_groups_def to_int32_def)

lemma bulk_read_nonempty_no_groups:
  "bulk_read_impl e c (p\<lparr> m_groups := [] \<rparr>) (k # ks) cflags []
     = ([], Inl (runtime_error ''There is no groups''))"
  by (simp add: bulk_read_impl_def bulk_no_groups)

text \<open>
  C10. A bulk write with a key, no data, no groups given and no default groups fails with
  the selector's error "There is no groups", not with the message of the count check:
  the groups are selected before the counts are compared.
\<close>

theorem bulk_write_mismatch_no_groups:
  "length [name_key ''k''] \<noteq> length ([] :: data_container_t list)
   \<and> bulk_write_impl (storage [] []) consts0 (proxy [] 0) [name_key ''k''] [] 0 [] 0
       = ([], Inl (runtime_error ''There is no groups''))
   \<and> runtime_error ''There is no groups'' \<noteq> runtime_error ''counts of keys and data are not equal''"
  by (simp add: bulk_write_impl_def get_groups_def proxy_def storage_def to_int32_def Let_def)

text \<open>
  C10, as amended. A bulk write with a non-empty key list and a data list of another
  length fails before any call is issued; the error is "counts of keys and data are not
  equal" when the selection of the groups succeeds, and the selector's error otherwise.
\<close>

theorem bulk_write_count_mismatch:
  "keys \<noteq> [] \<Longrightarrow> length keys \<noteq> length data \<Longrightarrow>
   bulk_write_impl e c p keys data cflags groups copies_num =
     ([], case get_groups e p (hd keys) groups 0 of
            Inl err \<Rightarrow> Inl err
          | Inr lgroups \<Rightarrow> Inl (runtime_error ''counts of keys and data are not equal''))"
  by (simp add: bulk_write_impl_def Let_def split: sum.splits)

theorem bulk_write_count_mismatch_witness:
  "[name_key ''k''] \<noteq> [] \<and> length [name_key ''k''] \<noteq> length ([] :: data_container_t list)
   \<and> bulk_write_impl (storage [] []) consts0 (proxy [1,2,3] 0) [name_key ''k''] [] 0 [] 0
       = ([], Inl (runtime_error ''counts of keys and data are not equal''))"
  using bulk_write_count_mismatch [of "[name_key ''k'']" "[]" "storage [] []" consts0 "proxy [1,2,3] 0" 0 "[]" 0]
  by (simp add: get_groups_def proxy_def storage_def to_int32_def)

section \<open>Properties of the range read\<close>

lemma string_of_nat_0: "string_of_nat 0 = ''0''"
  by (simp add: string_of_nat.simps digit_char_def)

lemma range_entries_data:
  "io_flags io AND DNET_IO_FLAGS_NODATA c = 0 \<Longrightarrow>
     range_entries c io es num rets = (num1, rets1) \<Longrightarrow> rets1 = rets"
  by (induction es arbitrary: num) auto

lemma range_entries_nodata:
  "io_flags io AND DNET_IO_FLAGS_NODATA c \<noteq> 0 \<Longrightarrow>
     range_entries c io es num rets = (num, rets @ map entry_data es)"
  by (induction es arbitrary: rets) auto

lemma range_groups_data:
  "io_flags io AND DNET_IO_FLAGS_NODATA c = 0 \<Longrightarrow>
     range_groups e c s io gs tr [] = (tr1, rets1) \<Longrightarrow> rets1 = []"
  by (induction gs arbitrary: tr)
     (auto simp: Let_def split: sum.splits prod.splits if_splits dest: range_entries_data)

text \<open>
  C7. The test of \<^verbatim>\<open>NODATA\<close> in the loop over the entries is inverted (line 773). Without
  \<^verbatim>\<open>NODATA\<close> the loop only adds up the counts, nothing is returned from any group and
  the call fails with the runtime error, whatever the groups answer. With \<^verbatim>\<open>NODATA\<close>
  the loop collects the data bodies, and the count that follows them is the untouched 0:
  the result is the bodies of the first group's entries followed by "0".
\<close>

theorem range_get_nodata_inverted:
  "(ioflags AND DNET_IO_FLAGS_NODATA c = 0 \<longrightarrow>
      (\<exists>err. snd (snd (range_get_impl e c p from_key to_key cflags ioflags limit_start limit_num
                          groups key)) = Inl err))
   \<and> (ioflags AND DNET_IO_FLAGS_NODATA c \<noteq> 0 \<longrightarrow>
        get_groups e p key groups 0 = Inr (g # gs) \<longrightarrow>
        reply e [] (Read_data_range (new_session\<lparr> s_cflags := cflags, s_ioflags := ioflags \<rparr>)
                      (range_io c from_key to_key ioflags limit_start limit_num) g) = Inr es \<longrightarrow>
        snd (snd (range_get_impl e c p from_key to_key cflags ioflags limit_start limit_num
                    groups key)) = Inr (map entry_data es @ [''0'']))"
proof (intro conjI impI)
  assume z: "ioflags AND DNET_IO_FLAGS_NODATA c = 0"
  have "io_flags (range_io c from_key to_key ioflags limit_start limit_num) = ioflags"
    by (simp add: range_io_def)
  with z have "io_flags (range_io c from_key to_key ioflags limit_start limit_num)
      AND DNET_IO_FLAGS_NODATA c = 0" by simp
  from range_groups_data [OF this] show "\<exists>err. snd (snd (range_get_impl e c p from_key to_key cflags ioflags limit_start limit_num
                          groups key)) = Inl err"
    by (auto simp: range_get_impl_def Let_def split: sum.splits prod.splits)
next
  assume nz: "ioflags AND DNET_IO_FLAGS_NODATA c \<noteq> 0"
    and gg: "get_groups e p key groups 0 = Inr (g # gs)"
    and r: "reply e [] (Read_data_range (new_session\<lparr> s_cflags := cflags, s_ioflags := ioflags \<rparr>)
                      (range_io c from_key to_key ioflags limit_start limit_num) g) = Inr es"
  have io: "io_flags (range_io c from_key to_key ioflags limit_start limit_num) = ioflags"
    by (simp add: range_io_def)
  show "snd (snd (range_get_impl e c p from_key to_key cflags ioflags limit_start limit_num
                    groups key)) = Inr (map entry_data es @ [''0''])"
    using nz gg r io
    by (simp add: range_get_impl_def Let_def range_entries_nodata string_of_nat_0)
qed

theorem range_get_nodata_inverted_witness:
  "(0 :: 64 word) AND DNET_IO_FLAGS_NODATA consts0 = 0
   \<and> snd (snd (range_get_impl (storage [] [data_entry ''x'' 1]) consts0 (proxy [1,2,3] 0)
                   (name_key ''a'') (name_key ''b'') 0 0 0 0 [] (name_key ''k'')))
       = Inl (runtime_error ''READ_RANGE failed for key k in 0 groups'')
   \<and> (1024 :: 64 word) AND DNET_IO_FLAGS_NODATA consts0 \<noteq> 0
   \<and> get_groups (storage [] [data_entry ''x'' 1]) (proxy [1,2,3] 0) (name_key ''k'') [] 0
       = Inr [1, 3, 2]
   \<and> snd (snd (range_get_impl (storage [] [data_entry ''x'' 1]) consts0 (proxy [1,2,3] 0)
                   (name_key ''a'') (name_key ''b'') 0 1024 0 0 [] (name_key ''k'')))
       = Inr [''x'', ''0'']"
proof -
  let ?e = "storage [] [data_entry ''x'' 1]" and ?p = "proxy [1,2,3] 0"
  have z: "(0 :: 64 word) AND DNET_IO_FLAGS_NODATA consts0 = 0" by simp
  have nz: "(1024 :: 64 word) AND DNET_IO_FLAGS_NODATA consts0 \<noteq> 0" by (simp add: consts0_def)
  have gg: "get_groups ?e ?p (name_key ''k'') [] 0 = Inr [1, 3, 2]"
    by (simp add: get_groups_def proxy_def storage_def)
  have r: "reply ?e [] (Read_data_range (new_session\<lparr> s_cflags := 0, s_ioflags := 1024 \<rparr>)
             (range_io consts0 (name_key ''a'') (name_key ''b'') 1024 0 0) 1) = Inr [data_entry ''x'' 1]"
    by (simp add: storage_def)
  have fail: "snd (snd (range_get_impl ?e consts0 ?p (name_key ''a'') (name_key ''b'') 0 0 0 0 []
                   (name_key ''k'')))
       = Inl (runtime_error ''READ_RANGE failed for key k in 0 groups'')"
    by (simp add: range_get_impl_def get_groups_def proxy_def to_int32_def storage_def range_io_def
          name_key_def consts0_def Let_def string_of_nat_0)
  note a = range_get_nodata_inverted [where ioflags = 0 and c = consts0 and e = ?e and p = ?p
      and from_key = "name_key ''a''" and to_key = "name_key ''b''" and cflags = 0
      and limit_start = 0 and limit_num = 0 and groups = "[]" and key = "name_key ''k''",
      THEN conjunct1, rule_format, OF z]
  note b = range_get_nodata_inverted [where ioflags = 1024 and c = consts0 and e = ?e and p = ?p
      and from_key = "name_key ''a''" and to_key = "name_key ''b''" and cflags = 0
      and limit_start = 0 and limit_num = 0 and groups = "[]" and key = "name_key ''k''"
      and g = 1 and gs = "[3, 2]" and es = "[data_entry ''x'' 1]",
      THEN conjunct2, rule_format, OF nz gg r]
  from a b z nz gg fail show ?thesis by (simp add: data_entry_def)
qed

section \<open>Properties of the group selector\<close>





section \<open>Properties of the lookup\<close>

lemma try_parse_usable:
  "try_parse_lookup e p entry = (if usable e p entry then Some (projr (parse_lookup e p entry)) else None)"
  by (auto simp: try_parse_lookup_def usable_def split: sum.splits)

lemma lookup_entries_round:
  "lookup_entries e p result lgroups = lookup_round e p result lgroups"
proof (induction result arbitrary: lgroups)
  case Nil
  then show ?case by (simp add: lookup_round_def entry_groups_def)
next
  case (Cons entry result)
  show ?case
  proof (cases "usable e p entry")
    case True
    then show ?thesis
      by (simp add: lookup_round_def try_parse_usable)
  next
    case False
    have "filter (\<lambda>g. g \<notin> set (entry_groups result)) (filter (\<lambda>g. g \<noteq> group_id (entry_id entry)) lgroups)
        = filter (\<lambda>g. g \<notin> set (entry_groups (entry # result))) lgroups"
      by (auto simp: entry_groups_def intro: filter_cong)
    with False Cons.IH [of "filter (\<lambda>g. g \<noteq> group_id (entry_id entry)) lgroups"]
    show ?thesis
      by (simp add: lookup_round_def try_parse_usable split: option.splits)
  qed
qed

text \<open>The loop of \<^verbatim>\<open>lookup_impl\<close> runs the rounds, and only them.\<close>

lemma lookup_step_cases:
  "lookup_step e p key tr s lgroups =
     (if lgroups = [] then Exit (tr, s, Inl (not_found_error (to_string key)))
      else case reply e tr (Lookup (s\<lparr> s_groups := lgroups \<rparr>) key) of
             Inl err \<Rightarrow> Exit (tr @ [Lookup (s\<lparr> s_groups := lgroups \<rparr>) key], s\<lparr> s_groups := lgroups \<rparr>, Inl err)
           | Inr result \<Rightarrow>
               (case lookup_round e p result lgroups of
                  Inl r \<Rightarrow> Exit (tr @ [Lookup (s\<lparr> s_groups := lgroups \<rparr>) key], s\<lparr> s_groups := lgroups \<rparr>, Inr r)
                | Inr lgroups1 \<Rightarrow> Again (tr @ [Lookup (s\<lparr> s_groups := lgroups \<rparr>) key], s\<lparr> s_groups := lgroups \<rparr>, lgroups1)))"
  by (simp add: lookup_step_def Let_def lookup_entries_round split: sum.splits)

lemma lookup_rounds_loop:
  assumes "lookup_rounds e p key tr s lgroups out"
  shows "lookup_loop e p key tr s lgroups = Some out"
  using assms
proof (induction rule: lookup_rounds.induct)
  case (exhausted tr s)
  show ?case by (subst lookup_loop.simps) (simp add: lookup_step_cases)
next
  case (thrown lgroups tr s err)
  then show ?case by (subst lookup_loop.simps) (simp add: lookup_step_cases)
next
  case (found lgroups tr s result r)
  then show ?case by (subst lookup_loop.simps) (simp add: lookup_step_cases)
next
  case (eliminated lgroups tr s result lgroups1 out)
  then show ?case by (subst lookup_loop.simps) (simp add: lookup_step_cases)
qed

lemma lookup_loop_rounds:
  assumes run: "lookup_loop e p key tr s lgroups = Some out"
  shows "lookup_rounds e p key tr s lgroups out"
proof -
  let ?P = "\<lambda>e' p' key' tr s lgroups out.
      e' = e \<and> p' = p \<and> key' = key \<longrightarrow> lookup_rounds e p key tr s lgroups out"
  have "?P e p key tr s lgroups out"
  proof (rule lookup_loop.raw_induct [where P = ?P, OF _ run])
    fix loop e' p' key' tr s lgroups out
    assume IH: "\<And>e' p' key' tr s lgroups y.
        loop e' p' key' tr s lgroups = Some y \<Longrightarrow> ?P e' p' key' tr s lgroups y"
      and body: "(case lookup_step e' p' key' tr s lgroups of
          Again (tr1, s1, lgroups1) \<Rightarrow> loop e' p' key' tr1 s1 lgroups1
        | Exit r \<Rightarrow> Some r) = Some out"
    show "?P e' p' key' tr s lgroups out"
    proof (intro impI, elim conjE)
      assume eqs: "e' = e" "p' = p" "key' = key"
      let ?s1 = "s\<lparr> s_groups := lgroups \<rparr>"
      let ?cl = "Lookup ?s1 key"
      show "lookup_rounds e p key tr s lgroups out"
      proof (cases "lgroups = []")
        case True
        with body eqs have "out = (tr, s, Inl (not_found_error (to_string key)))"
          by (simp add: lookup_step_cases)
        with True show ?thesis by (simp add: lookup_rounds.exhausted)
      next
        case ne: False
        show ?thesis
        proof (cases "reply e tr ?cl")
          case (Inl err)
          with body eqs ne have "out = (tr @ [?cl], ?s1, Inl err)"
            by (simp add: lookup_step_cases)
          with ne Inl show ?thesis by (simp add: lookup_rounds.thrown)
        next
          case (Inr result)
          show ?thesis
          proof (cases "lookup_round e p result lgroups")
            case (Inl r)
            with body eqs ne Inr have "out = (tr @ [?cl], ?s1, Inr r)"
              by (simp add: lookup_step_cases)
            with ne Inr Inl show ?thesis by (simp add: lookup_rounds.found)
          next
            case r1: (Inr lgroups1)
            with body eqs ne Inr have "loop e p key (tr @ [?cl]) ?s1 lgroups1 = Some out"
              by (simp add: lookup_step_cases)
            with IH have "lookup_rounds e p key (tr @ [?cl]) ?s1 lgroups1 out" by blast
            with ne Inr r1 show ?thesis by (rule lookup_rounds.eliminated)
          qed
        qed
      qed
    qed
  qed
  then show ?thesis by simp
qed


text \<open>The loop ends when every result names a candidate.\<close>

lemma lookup_loop_terminates:
  assumes ans: "lookup_answers e key" and f: "s_filter s = filters_all"
  shows "\<exists>out. lookup_loop e p key tr s lgroups = Some out"
  using f
proof (induction "length lgroups" arbitrary: tr s lgroups rule: less_induct)
  case less
  show ?case
  proof (cases "lookup_step e p key tr s lgroups")
    case (Exit out)
    then show ?thesis by (subst lookup_loop.simps) (simp del: split_paired_Ex)
  next
    case (Again st)
    obtain tr1 s1 lgroups1 where st: "st = (tr1, s1, lgroups1)" by (cases st) auto
    from Again st obtain result where a: "lgroups \<noteq> []" "s1 = s\<lparr> s_groups := lgroups \<rparr>"
      "reply e tr (Lookup s1 key) = Inr result" "lookup_round e p result lgroups = Inr lgroups1"
      by (auto simp: lookup_step_def Let_def lookup_entries_round split: if_splits sum.splits)
    from a(4) have lg1: "lgroups1 = filter (\<lambda>g. g \<notin> set (entry_groups result)) lgroups"
      by (auto simp: lookup_round_def split: option.splits)
    from a(1,2) less.prems have "s_filter s1 = filters_all" "s_groups s1 \<noteq> []" by simp_all
    with ans have "case reply e tr (Lookup s1 key) of
           Inl err \<Rightarrow> True
         | Inr result \<Rightarrow> \<exists>g \<in> set (entry_groups result). g \<in> set (s_groups s1)"
      unfolding lookup_answers_def by blast
    with a(3) obtain g where "g \<in> set (entry_groups result)" "g \<in> set (s_groups s1)"
      by auto
    with a(2) have "length lgroups1 < length lgroups"
      unfolding lg1 by (intro length_filter_less [of g]) auto
    from less.hyps [OF this \<open>s_filter s1 = filters_all\<close>]
    obtain out where "lookup_loop e p key tr1 s1 lgroups1 = Some out" by blast
    with Again st show ?thesis by (subst lookup_loop.simps) (simp del: split_paired_Ex)
  qed
qed

text \<open>
  C8. A result whose first entry without an error cannot be parsed: the exception of the
  parse is swallowed (lines 561-564), the entry's group is removed like that of an error
  entry, and the lookup returns the next entry. The entry returned is not the first one
  without an error. With a session that answers one group at a time the lookup goes into
  a second round, without the group of the entry it could not parse, and returns the
  entry of that round.
\<close>

theorem lookup_skips_unparsable_entry:
  "reply (storage_unparsable [] [1]) []
       (Lookup \<lparr>s_groups = [1,2], s_cflags = 0, s_ioflags = 0, s_filter = filters_all\<rparr> (name_key ''k''))
     = Inr [ok_entry 1, ok_entry 2]
   \<and> first_without_error [ok_entry 1, ok_entry 2] = Some (ok_entry 1)
   \<and> lookup_impl (storage_unparsable [] [1]) (proxy [1,2] 0) (name_key ''k'') [1,2]
     = Some ([Lookup \<lparr>s_groups = [1,2], s_cflags = 0, s_ioflags = 0, s_filter = filters_all\<rparr>
                (name_key ''k'')],
             \<lparr>s_groups = [1,2], s_cflags = 0, s_ioflags = 0, s_filter = filters_all\<rparr>,
             Inr (plain_lookup_result (ok_entry 2)))
   \<and> plain_lookup_result (ok_entry 2) \<noteq> plain_lookup_result (ok_entry 1)
   \<and> reply (storage_in_turn [] [1]) []
       (Lookup \<lparr>s_groups = [1,2], s_cflags = 0, s_ioflags = 0, s_filter = filters_all\<rparr> (name_key ''k''))
     = Inr [ok_entry 1]
   \<and> lookup_impl (storage_in_turn [] [1]) (proxy [1,2] 0) (name_key ''k'') [1,2]
     = Some ([Lookup \<lparr>s_groups = [1,2], s_cflags = 0, s_ioflags = 0, s_filter = filters_all\<rparr>
                (name_key ''k''),
              Lookup \<lparr>s_groups = [2], s_cflags = 0, s_ioflags = 0, s_filter = filters_all\<rparr>
                (name_key ''k'')],
             \<lparr>s_groups = [2], s_cflags = 0, s_ioflags = 0, s_filter = filters_all\<rparr>,
             Inr (plain_lookup_result (ok_entry 2)))"
  by (simp add: lookup_impl_def lookup_loop.simps lookup_step_def try_parse_lookup_def parse_lookup_def
        get_groups_def new_session_def first_without_error_def storage_unparsable_def storage_in_turn_def
        fixture_defs Let_def)

text \<open>
  C8, as amended. One round of the loop returns the first entry that has no error and
  can be parsed, and otherwise removes the group of every entry of the result from the
  candidates. A lookup fails with the selector's error before any call; and from the
  selected groups it does exactly what the rounds do, call after call: it returns the
  first entry that can be returned of the first result that has one, it fails with the
  exception of a session call, and it fails with the not-found error of the key only
  when a round has left no candidate. With a session that names a candidate in every
  result, the lookup ends.
\<close>

theorem lookup_elimination:
  "lookup_entries e p result lgroups = lookup_round e p result lgroups
   \<and> (lookup_impl e p key groups = Some out \<longleftrightarrow>
        (case get_groups e p key groups 0 of
           Inl err \<Rightarrow> out = ([], new_session\<lparr> s_filter := filters_all \<rparr>, Inl err)
         | Inr lgroups0 \<Rightarrow>
             lookup_rounds e p key [] (new_session\<lparr> s_filter := filters_all \<rparr>) lgroups0 out))
   \<and> (lookup_answers e key \<longrightarrow> (\<exists>out. lookup_impl e p key groups = Some out))"
proof (intro conjI impI)
  show "lookup_entries e p result lgroups = lookup_round e p result lgroups"
    by (rule lookup_entries_round)
next
  show "lookup_impl e p key groups = Some out \<longleftrightarrow>
        (case get_groups e p key groups 0 of
           Inl err \<Rightarrow> out = ([], new_session\<lparr> s_filter := filters_all \<rparr>, Inl err)
         | Inr lgroups0 \<Rightarrow>
             lookup_rounds e p key [] (new_session\<lparr> s_filter := filters_all \<rparr>) lgroups0 out)"
  proof (cases "get_groups e p key groups 0")
    case (Inl err)
    then show ?thesis by (auto simp: lookup_impl_def Let_def)
  next
    case (Inr lg)
    then show ?thesis
      using lookup_loop_rounds [of e p key "[]" "new_session\<lparr> s_filter := filters_all \<rparr>" lg out]
        lookup_rounds_loop [of e p key "[]" "new_session\<lparr> s_filter := filters_all \<rparr>" lg out]
      by (auto simp: lookup_impl_def Let_def)
  qed
next
  assume ans: "lookup_answers e key"
  show "\<exists>out. lookup_impl e p key groups = Some out"
  proof (cases "get_groups e p key groups 0")
    case (Inl err')
    then show ?thesis by (simp add: lookup_impl_def Let_def)
  next
    case (Inr lg)
    from lookup_loop_terminates [OF ans, of "new_session\<lparr> s_filter := filters_all \<rparr>" p "[]" lg]
    show ?thesis using Inr by (simp add: lookup_impl_def Let_def)
  qed
qed

lemma storage_in_turn_answers: "lookup_answers (storage_in_turn failing unparsable) key"
  by (auto simp: lookup_answers_def storage_in_turn_def storage_unparsable_def storage_def
        entry_groups_def error_entry_def ok_entry_def neq_Nil_conv)

text \<open>
  Three failing groups, answered one at a time: by the rules, three rounds and then no
  candidate.
\<close>

lemma storage_in_turn_rounds:
  "lookup_rounds (storage_in_turn [1,2,3] []) (proxy [1,2,3] 0) (name_key ''k'') []
        \<lparr>s_groups = [], s_cflags = 0, s_ioflags = 0, s_filter = filters_all\<rparr> [1,2,3]
        ([Lookup \<lparr>s_groups = [1,2,3], s_cflags = 0, s_ioflags = 0, s_filter = filters_all\<rparr>
                (name_key ''k''),
          Lookup \<lparr>s_groups = [2,3], s_cflags = 0, s_ioflags = 0, s_filter = filters_all\<rparr>
                (name_key ''k''),
          Lookup \<lparr>s_groups = [3], s_cflags = 0, s_ioflags = 0, s_filter = filters_all\<rparr>
                (name_key ''k'')],
         \<lparr>s_groups = [3], s_cflags = 0, s_ioflags = 0, s_filter = filters_all\<rparr>,
         Inl (not_found_error ''k''))"
proof -
  let ?e = "storage_in_turn [1,2,3] []" and ?p = "proxy [1,2,3] 0" and ?k = "name_key ''k''"
  let ?s0 = "\<lparr>s_groups = [], s_cflags = 0, s_ioflags = 0, s_filter = filters_all\<rparr>"
  let ?s1 = "\<lparr>s_groups = [1,2,3], s_cflags = 0, s_ioflags = 0, s_filter = filters_all\<rparr>"
  let ?s2 = "\<lparr>s_groups = [2,3], s_cflags = 0, s_ioflags = 0, s_filter = filters_all\<rparr>"
  let ?s3 = "\<lparr>s_groups = [3], s_cflags = 0, s_ioflags = 0, s_filter = filters_all\<rparr>"
  have u1: "?s0\<lparr>s_groups := [1,2,3]\<rparr> = ?s1" and u2: "?s1\<lparr>s_groups := [2,3]\<rparr> = ?s2"
    and u3: "?s2\<lparr>s_groups := [3]\<rparr> = ?s3"
    by simp_all
  have r1: "reply ?e tr (Lookup ?s1 ?k) = Inr [error_entry 1]"
    and r2: "reply ?e tr (Lookup ?s2 ?k) = Inr [error_entry 2]"
    and r3: "reply ?e tr (Lookup ?s3 ?k) = Inr [error_entry 3]" for tr
    by (simp_all add: storage_in_turn_def storage_unparsable_def storage_def)
  have l1: "lookup_round ?e ?p [error_entry 1] [1,2,3] = Inr [2,3]"
    and l2: "lookup_round ?e ?p [error_entry 2] [2,3] = Inr [3]"
    and l3: "lookup_round ?e ?p [error_entry 3] [3] = Inr []"
    by (simp_all add: lookup_round_def usable_def entry_groups_def error_entry_def)
  have ts: "to_string ?k = ''k''" by (simp add: name_key_def)
  let ?out = "([Lookup ?s1 ?k, Lookup ?s2 ?k, Lookup ?s3 ?k], ?s3, Inl (not_found_error ''k''))"
  have e0: "lookup_rounds ?e ?p ?k [Lookup ?s1 ?k, Lookup ?s2 ?k, Lookup ?s3 ?k] ?s3 [] ?out"
    using lookup_rounds.exhausted [of ?e ?p ?k "[Lookup ?s1 ?k, Lookup ?s2 ?k, Lookup ?s3 ?k]" ?s3]
    by (simp only: ts)
  have e3: "lookup_rounds ?e ?p ?k [Lookup ?s1 ?k, Lookup ?s2 ?k] ?s2 [3] ?out"
    by (rule lookup_rounds.eliminated [where result = "[error_entry 3]" and ?lgroups1.0 = "[]"])
       (simp_all add: r3 l3 e0)
  have e2: "lookup_rounds ?e ?p ?k [Lookup ?s1 ?k] ?s1 [2,3] ?out"
    by (rule lookup_rounds.eliminated [where result = "[error_entry 2]" and ?lgroups1.0 = "[3]"])
       (simp_all add: r2 l2 e3)
  have e1: "lookup_rounds ?e ?p ?k [] ?s0 [1,2,3] ?out"
    by (rule lookup_rounds.eliminated [where result = "[error_entry 1]" and ?lgroups1.0 = "[2,3]"])
       (simp_all add: r1 l1 e2)
  then show ?thesis .
qed

theorem lookup_elimination_witness:
  "lookup_impl (storage_in_turn [1,2] []) (proxy [1,2,3] 0) (name_key ''k'') [1,2,3]
     = Some ([Lookup \<lparr>s_groups = [1,2,3], s_cflags = 0, s_ioflags = 0, s_filter = filters_all\<rparr>
                (name_key ''k''),
              Lookup \<lparr>s_groups = [2,3], s_cflags = 0, s_ioflags = 0, s_filter = filters_all\<rparr>
                (name_key ''k''),
              Lookup \<lparr>s_groups = [3], s_cflags = 0, s_ioflags = 0, s_filter = filters_all\<rparr>
                (name_key ''k'')],
             \<lparr>s_groups = [3], s_cflags = 0, s_ioflags = 0, s_filter = filters_all\<rparr>,
             Inr (plain_lookup_result (ok_entry 3)))
   \<and> lookup_rounds (storage_in_turn [1,2] []) (proxy [1,2,3] 0) (name_key ''k'') []
        \<lparr>s_groups = [], s_cflags = 0, s_ioflags = 0, s_filter = filters_all\<rparr> [1,2,3]
        ([Lookup \<lparr>s_groups = [1,2,3], s_cflags = 0, s_ioflags = 0, s_filter = filters_all\<rparr>
                (name_key ''k''),
          Lookup \<lparr>s_groups = [2,3], s_cflags = 0, s_ioflags = 0, s_filter = filters_all\<rparr>
                (name_key ''k''),
          Lookup \<lparr>s_groups = [3], s_cflags = 0, s_ioflags = 0, s_filter = filters_all\<rparr>
                (name_key ''k'')],
         \<lparr>s_groups = [3], s_cflags = 0, s_ioflags = 0, s_filter = filters_all\<rparr>,
         Inr (plain_lookup_result (ok_entry 3)))
   \<and> lookup_answers (storage_in_turn [1,2,3] []) (name_key ''k'')
   \<and> lookup_impl (storage_in_turn [1,2,3] []) (proxy [1,2,3] 0) (name_key ''k'') [1,2,3]
     = Some ([Lookup \<lparr>s_groups = [1,2,3], s_cflags = 0, s_ioflags = 0, s_filter = filters_all\<rparr>
                (name_key ''k''),
              Lookup \<lparr>s_groups = [2,3], s_cflags = 0, s_ioflags = 0, s_filter = filters_all\<rparr>
                (name_key ''k''),
              Lookup \<lparr>s_groups = [3], s_cflags = 0, s_ioflags = 0, s_filter = filters_all\<rparr>
                (name_key ''k'')],
             \<lparr>s_groups = [3], s_cflags = 0, s_ioflags = 0, s_filter = filters_all\<rparr>,
             Inl (not_found_error ''k''))"
proof -
  let ?k = "name_key ''k''" and ?p = "proxy [1,2,3] 0"
  let ?s0 = "\<lparr>s_groups = [], s_cflags = 0, s_ioflags = 0, s_filter = filters_all\<rparr>"
  let ?tr = "[Lookup (?s0\<lparr>s_groups := [1,2,3]\<rparr>) ?k, Lookup (?s0\<lparr>s_groups := [2,3]\<rparr>) ?k,
              Lookup (?s0\<lparr>s_groups := [3]\<rparr>) ?k]"
  have found: "lookup_impl (storage_in_turn [1,2] []) ?p ?k [1,2,3]
     = Some (?tr, ?s0\<lparr>s_groups := [3]\<rparr>, Inr (plain_lookup_result (ok_entry 3)))"
    by (simp add: lookup_impl_def lookup_loop.simps lookup_step_def try_parse_lookup_def
          parse_lookup_def get_groups_def new_session_def storage_in_turn_def storage_unparsable_def
          fixture_defs Let_def)
  have gg: "get_groups (storage_in_turn [1,2] []) ?p ?k [1,2,3] 0 = Inr [1,2,3]"
    by (simp add: get_groups_def)
  note t = lookup_elimination [where e = "storage_in_turn [1,2] []" and p = ?p and key = ?k
      and groups = "[1,2,3]"
      and out = "(?tr, ?s0\<lparr>s_groups := [3]\<rparr>, Inr (plain_lookup_result (ok_entry 3)))"]
  from t [THEN conjunct2, THEN conjunct1, THEN iffD1, OF found]
  have rounds: "lookup_rounds (storage_in_turn [1,2] []) ?p ?k [] ?s0 [1,2,3]
        (?tr, ?s0\<lparr>s_groups := [3]\<rparr>, Inr (plain_lookup_result (ok_entry 3)))"
    by (simp add: gg new_session_def)
  have gg': "get_groups (storage_in_turn [1,2,3] []) ?p ?k [1,2,3] 0 = Inr [1,2,3]"
    by (simp add: get_groups_def)
  have "lookup_rounds (storage_in_turn [1,2,3] []) ?p ?k [] (new_session\<lparr> s_filter := filters_all \<rparr>)
          [1,2,3] (?tr, ?s0\<lparr>s_groups := [3]\<rparr>, Inl (not_found_error ''k''))"
    using storage_in_turn_rounds by (simp add: new_session_def)
  then have lost: "lookup_impl (storage_in_turn [1,2,3] []) ?p ?k [1,2,3]
     = Some (?tr, ?s0\<lparr>s_groups := [3]\<rparr>, Inl (not_found_error ''k''))"
    by (intro lookup_elimination [where e = "storage_in_turn [1,2,3] []" and p = ?p and key = ?k
          and groups = "[1,2,3]", THEN conjunct2, THEN conjunct1, THEN iffD2])
       (simp add: gg')
  note ans = storage_in_turn_answers [of "[1,2,3]" "[]" ?k]
  from lookup_elimination [where e = "storage_in_turn [1,2,3] []" and p = ?p and key = ?k
      and groups = "[1,2,3]", THEN conjunct2, THEN conjunct2, rule_format, OF ans]
  have "\<exists>out. lookup_impl (storage_in_turn [1,2,3] []) ?p ?k [1,2,3] = Some out" .
  with found rounds ans lost show ?thesis by simp
qed

end
